theory Spec2Isabelle
  imports Main
begin

section \<open>JavaScript strings\<close>

text \<open>
  A JavaScript string is a sequence of UTF-16 code units and \<open>length\<close> counts them.
  The model uses HOL strings: one \<open>char\<close> stands for one code unit, restricted to the
  units below 256. The helpers below are the string methods the controller calls.
\<close>

text \<open>\<open>String.prototype.trim\<close>: the white space and line terminators below 256.\<close>

definition is_ws :: "char \<Rightarrow> bool" where
  "is_ws c \<longleftrightarrow>
     c \<in> {CHR 0x09, CHR 0x0A, CHR 0x0B, CHR 0x0C, CHR 0x0D, CHR '' '', CHR 0xA0}"

definition trim :: "string \<Rightarrow> string" where
  "trim s = rev (dropWhile is_ws (rev (dropWhile is_ws s)))"

text \<open>\<open>String.prototype.toLowerCase\<close> on the code units below 256.\<close>

definition upper_chars :: "char list" where
  "upper_chars = ''ABCDEFGHIJKLMNOPQRSTUVWXYZ'' @
     [CHR 0xC0, CHR 0xC1, CHR 0xC2, CHR 0xC3, CHR 0xC4, CHR 0xC5, CHR 0xC6, CHR 0xC7,
      CHR 0xC8, CHR 0xC9, CHR 0xCA, CHR 0xCB, CHR 0xCC, CHR 0xCD, CHR 0xCE, CHR 0xCF,
      CHR 0xD0, CHR 0xD1, CHR 0xD2, CHR 0xD3, CHR 0xD4, CHR 0xD5, CHR 0xD6, CHR 0xD8,
      CHR 0xD9, CHR 0xDA, CHR 0xDB, CHR 0xDC, CHR 0xDD, CHR 0xDE]"

definition lower_chars :: "char list" where
  "lower_chars = ''abcdefghijklmnopqrstuvwxyz'' @
     [CHR 0xE0, CHR 0xE1, CHR 0xE2, CHR 0xE3, CHR 0xE4, CHR 0xE5, CHR 0xE6, CHR 0xE7,
      CHR 0xE8, CHR 0xE9, CHR 0xEA, CHR 0xEB, CHR 0xEC, CHR 0xED, CHR 0xEE, CHR 0xEF,
      CHR 0xF0, CHR 0xF1, CHR 0xF2, CHR 0xF3, CHR 0xF4, CHR 0xF5, CHR 0xF6, CHR 0xF8,
      CHR 0xF9, CHR 0xFA, CHR 0xFB, CHR 0xFC, CHR 0xFD, CHR 0xFE]"

definition lower_char :: "char \<Rightarrow> char" where
  "lower_char c = (case map_of (zip upper_chars lower_chars) c of Some d \<Rightarrow> d | None \<Rightarrow> c)"

definition toLowerCase :: "string \<Rightarrow> string" where
  "toLowerCase s = map lower_char s"

text \<open>\<open>String.prototype.startsWith\<close>.\<close>

definition startsWith :: "string \<Rightarrow> string \<Rightarrow> bool" where
  "startsWith s p \<longleftrightarrow> take (length p) s = p"

text \<open>\<open>Array.prototype.join\<close> on an array of strings.\<close>

fun join :: "string \<Rightarrow> string list \<Rightarrow> string" where
  "join sep [] = []"
| "join sep [x] = x"
| "join sep (x # y # ys) = x @ sep @ join sep (y # ys)"

text \<open>
  \<open>s.split(/\r?\n/)\<close>: the pieces of \<open>s\<close> between line feeds, a carriage return right
  before a line feed belonging to the separator. The first argument is the piece being
  read, reversed.
\<close>

fun splitLines :: "string \<Rightarrow> string \<Rightarrow> string list" where
  "splitLines cur [] = [rev cur]"
| "splitLines cur [c] = (if c = CHR 0x0A then [rev cur, []] else [rev (c # cur)])"
| "splitLines cur (c # d # cs) =
     (if c = CHR 0x0A then rev cur # splitLines [] (d # cs)
      else if c = CHR 0x0D \<and> d = CHR 0x0A then rev cur # splitLines [] cs
      else splitLines (c # cur) (d # cs))"

text \<open>A string is truthy when it is not empty; \<open>.filter(Boolean)\<close> keeps the truthy ones.\<close>

definition filterBoolean :: "string list \<Rightarrow> string list" where
  "filterBoolean xs = filter (\<lambda>s. s \<noteq> []) xs"

section \<open>JavaScript values\<close>

text \<open>
  Chat messages are typed \<open>unknown\<close> in the controller: they are whatever the gateway
  sent or the controller built. Objects keep their keys in insertion order.
\<close>

datatype jv =
    JUndefined
  | JNull
  | JBool bool
  | JNum int
  | JStr string
  | JArr "jv list"
  | JObj "(string \<times> jv) list"

text \<open>\<open>!v\<close> is false exactly on the truthy values.\<close>

fun truthy :: "jv \<Rightarrow> bool" where
  "truthy JUndefined = False"
| "truthy JNull = False"
| "truthy (JBool b) = b"
| "truthy (JNum n) = (n \<noteq> 0)"
| "truthy (JStr s) = (s \<noteq> [])"
| "truthy (JArr xs) = True"
| "truthy (JObj kvs) = True"

text \<open>\<open>typeof v === "object"\<close> (true of \<open>null\<close> and of arrays as well).\<close>

fun typeofObject :: "jv \<Rightarrow> bool" where
  "typeofObject JNull = True"
| "typeofObject (JArr xs) = True"
| "typeofObject (JObj kvs) = True"
| "typeofObject v = False"

text \<open>
  Property read \<open>v.k\<close> for the keys the controller reads (none of them an array index or
  \<open>length\<close>): \<open>undefined\<close> unless \<open>v\<close> is an object that has the key. The controller
  guards every read against \<open>null\<close> and \<open>undefined\<close>.
\<close>

fun getProp :: "jv \<Rightarrow> string \<Rightarrow> jv" where
  "getProp (JObj kvs) k = (case map_of kvs k of Some v \<Rightarrow> v | None \<Rightarrow> JUndefined)"
| "getProp v k = JUndefined"

text \<open>\<open>"k" in v\<close> for an object \<open>v\<close>.\<close>

fun hasKey :: "jv \<Rightarrow> string \<Rightarrow> bool" where
  "hasKey (JObj kvs) k = (k \<in> fst ` set kvs)"
| "hasKey v k = False"

text \<open>\<open>{ ...obj, k: v }\<close>: the key keeps its place when \<open>obj\<close> has it, else it comes last.\<close>

fun objSet :: "(string \<times> jv) list \<Rightarrow> string \<Rightarrow> jv \<Rightarrow> (string \<times> jv) list" where
  "objSet [] k v = [(k, v)]"
| "objSet ((k', v') # kvs) k v = (if k' = k then (k, v) # kvs else (k', v') # objSet kvs k v)"

fun isArray :: "jv \<Rightarrow> bool" where
  "isArray (JArr xs) = True"
| "isArray v = False"

text \<open>An optional string as a value: \<open>undefined\<close> when absent.\<close>

fun optStr :: "string option \<Rightarrow> jv" where
  "optStr None = JUndefined"
| "optStr (Some s) = JStr s"

section \<open>Attachments (ui-types.ts) and the stored cache types\<close>

datatype ChatAttachmentKind = Image | VoiceNote

datatype AttachmentSource = Upload | Record

text \<open>
  \<open>StoredChatAttachment\<close>; \<open>ChatAttachment\<close> has the same fields and \<open>previewUrl\<close>.
  An optional field is \<open>None\<close> when absent. \<open>durationMs\<close> is a whole number of
  milliseconds.
\<close>

record StoredChatAttachment =
  attId :: string
  kind :: "ChatAttachmentKind option"
  dataUrl :: string
  mimeType :: string
  fileName :: "string option"
  source :: "AttachmentSource option"
  durationMs :: "int option"
  transcript :: "string option"
  transcriptParts :: "string list option"
  persistedNoteId :: "string option"

record ChatAttachment = StoredChatAttachment +
  previewUrl :: "string option"

record StoredLocalVoiceNote =
  noteId :: string
  timestamp :: int
  attachment :: StoredChatAttachment

record StoredSessionChatState =
  draft :: "string option"
  attachments :: "StoredChatAttachment list option"
  voiceNotes :: "StoredLocalVoiceNote list option"

record StoredChatStateStore =
  version :: int
  sessions :: "string \<Rightarrow> StoredSessionChatState option"

definition LOCAL_CHAT_STATE_VERSION :: int where
  "LOCAL_CHAT_STATE_VERSION = 1"

definition LOCAL_CHAT_ATTACHMENTS_LIMIT :: nat where
  "LOCAL_CHAT_ATTACHMENTS_LIMIT = 8"

definition LOCAL_CHAT_VOICE_NOTES_LIMIT :: nat where
  "LOCAL_CHAT_VOICE_NOTES_LIMIT = 40"

text \<open>\<open>xs.slice(-n)\<close>: the last \<open>n\<close> elements, all of them when there are fewer.\<close>

definition sliceLast :: "nat \<Rightarrow> 'a list \<Rightarrow> 'a list" where
  "sliceLast n xs = drop (length xs - n) xs"

section \<open>The environment of the controller\<close>

text \<open>
  The gateway client: \<open>request(method, params)\<close> resolves or rejects. The two methods
  whose parameters the properties below look at are modelled with their parameters.
\<close>

record VoiceNotesSaveParams =
  save_sessionKey :: string
  save_source :: AttachmentSource
  save_durationMs :: "int option"
  save_transcript :: "string option"
  save_transcriptParts :: "string list option"
  audio_mimeType :: string
  audio_fileName :: "string option"
  audio_content :: string

record ApiAttachment =
  api_type :: string
  api_mimeType :: string
  api_content :: string

record ChatSendParams =
  send_sessionKey :: string
  send_message :: string
  send_deliver :: bool
  send_idempotencyKey :: string
  send_attachments :: "ApiAttachment list option"

datatype request =
    VoiceNotesSave VoiceNotesSaveParams
  | ChatSend ChatSendParams
  | ChatAbort string "string option"

text \<open>
  The outcome of a request: \<open>Inl e\<close> when the promise rejects, \<open>e\<close> being \<open>String(err)\<close>;
  \<open>Inr r\<close> when it resolves, \<open>r\<close> being \<open>result.note?.id\<close> (the only part of a
  result the controller reads). The outcome may depend on how many requests were issued
  before.
\<close>

type_synonym outcome = "string + string option"

record GatewayBrowserClient =
  respond :: "nat \<Rightarrow> request \<Rightarrow> outcome"

text \<open>
  \<open>localStorage\<close>: the item under \<open>LOCAL_CHAT_STATE_KEY\<close>, parsed (\<open>None\<close> when the key
  is absent or the text is not a store object), and whether \<open>setItem\<close> throws.
\<close>

record Storage =
  item :: "StoredChatStateStore option"
  setItemThrows :: bool

text \<open>
  What the controller reads from and writes to outside its own state: the storage
  (\<open>None\<close> when \<open>window.localStorage\<close> is unavailable), the requests issued so far, the
  console warnings, and the values \<open>Date.now()\<close> and \<open>generateUUID()\<close> return at each
  successive call.
\<close>

record world =
  localStorage :: "Storage option"
  requests :: "request list"
  warnings :: "string list"
  dateNow :: "nat \<Rightarrow> int"
  dateNowCalls :: nat
  generateUUID :: "nat \<Rightarrow> string"
  uuidCalls :: nat

definition Date_now :: "world \<Rightarrow> int \<times> world" where
  "Date_now w = (dateNow w (dateNowCalls w), w\<lparr>dateNowCalls := Suc (dateNowCalls w)\<rparr>)"

definition nextUUID :: "world \<Rightarrow> string \<times> world" where
  "nextUUID w = (generateUUID w (uuidCalls w), w\<lparr>uuidCalls := Suc (uuidCalls w)\<rparr>)"

text \<open>\<open>await client.request(...)\<close>: the request is logged, the client decides the outcome.\<close>

definition request :: "GatewayBrowserClient \<Rightarrow> request \<Rightarrow> world \<Rightarrow> outcome \<times> world" where
  "request c r w = (respond c (length (requests w)) r, w\<lparr>requests := requests w @ [r]\<rparr>)"

text \<open>\<open>console.warn("[control-ui] voice note persist failed:", err)\<close>.\<close>

definition console_warn :: "string \<Rightarrow> world \<Rightarrow> world" where
  "console_warn e w = w\<lparr>warnings := warnings w @ [''[control-ui] voice note persist failed: '' @ e]\<rparr>"

section \<open>The controller state (controllers/chat.ts)\<close>

record ChatState =
  client :: "GatewayBrowserClient option"
  connected :: bool
  sessionKey :: string
  chatLoading :: bool
  chatMessages :: "jv list"
  chatThinkingLevel :: "string option"
  chatSending :: bool
  chatMessage :: string
  chatAttachments :: "ChatAttachment list"
  chatRunId :: "string option"
  chatStream :: "string option"
  chatStreamStartedAt :: "int option"
  lastError :: "string option"

section \<open>The local cache store\<close>

definition readLocalChatStateStore :: "world \<Rightarrow> StoredChatStateStore option" where
  "readLocalChatStateStore w =
     (case localStorage w of
        None \<Rightarrow> None
      | Some storage \<Rightarrow>
          (case item storage of
             None \<Rightarrow> None
           | Some parsed \<Rightarrow>
               if version parsed \<noteq> LOCAL_CHAT_STATE_VERSION then None
               else Some \<lparr>version = LOCAL_CHAT_STATE_VERSION, sessions = sessions parsed\<rparr>))"

definition writeLocalChatStateStore :: "StoredChatStateStore \<Rightarrow> world \<Rightarrow> world" where
  "writeLocalChatStateStore store w =
     (case localStorage w of
        None \<Rightarrow> w
      | Some storage \<Rightarrow>
          if setItemThrows storage then w
          else w\<lparr>localStorage := Some (storage\<lparr>item := Some store\<rparr>)\<rparr>)"

text \<open>The empty object \<open>{}\<close> as a session entry.\<close>

definition emptySession :: StoredSessionChatState where
  "emptySession = \<lparr>draft = None, attachments = None, voiceNotes = None\<rparr>"

definition updateLocalSessionState ::
  "string \<Rightarrow> (StoredSessionChatState \<Rightarrow> StoredSessionChatState option) \<Rightarrow> world \<Rightarrow> world" where
  "updateLocalSessionState key updater w =
     (if trim key = [] then w
      else
        let store = (case readLocalChatStateStore w of
                       None \<Rightarrow> \<lparr>version = LOCAL_CHAT_STATE_VERSION, sessions = Map.empty\<rparr>
                     | Some s \<Rightarrow> s);
            current = (case sessions store key of None \<Rightarrow> emptySession | Some c \<Rightarrow> c)
        in (case updater current of
              None \<Rightarrow> writeLocalChatStateStore (store\<lparr>sessions := (sessions store)(key := None)\<rparr>) w
            | Some next \<Rightarrow>
                writeLocalChatStateStore (store\<lparr>sessions := (sessions store)(key \<mapsto> next)\<rparr>) w))"

definition readLocalSessionState :: "string \<Rightarrow> world \<Rightarrow> StoredSessionChatState option" where
  "readLocalSessionState key w =
     (if trim key = [] then None
      else (case readLocalChatStateStore w of
              None \<Rightarrow> None
            | Some store \<Rightarrow> sessions store key))"

section \<open>Attachments: transcripts, data URLs, stored form\<close>

text \<open>
  \<open>/^data:([^;]+);base64,(.+)$/\<close>: after \<open>data:\<close>, the media type runs to the first
  semicolon and is not empty; \<open>;base64,\<close> follows; the content is what remains, not
  empty and free of line terminators.
\<close>

definition dataUrlToBase64 :: "string \<Rightarrow> (string \<times> string) option" where
  "dataUrlToBase64 url =
     (if startsWith url ''data:'' then
        let rest = drop 5 url;
            mime = takeWhile (\<lambda>c. c \<noteq> CHR '';'') rest;
            tail = dropWhile (\<lambda>c. c \<noteq> CHR '';'') rest;
            content = drop 8 tail
        in if mime \<noteq> [] \<and> startsWith tail '';base64,'' \<and> content \<noteq> []
              \<and> CHR 0x0A \<notin> set content \<and> CHR 0x0D \<notin> set content
           then Some (content, mime)
           else None
      else None)"

definition isVoiceNoteAttachment :: "'a StoredChatAttachment_scheme \<Rightarrow> bool" where
  "isVoiceNoteAttachment a \<longleftrightarrow>
     kind a = Some VoiceNote \<or> startsWith (toLowerCase (mimeType a)) ''audio/''"

definition normalizeTranscript :: "'a StoredChatAttachment_scheme \<Rightarrow> string" where
  "normalizeTranscript a =
     (case transcript a of
        Some t \<Rightarrow> trim t
      | None \<Rightarrow>
          (case transcriptParts a of
             None \<Rightarrow> []
           | Some parts \<Rightarrow> join [CHR 0x0A] (filterBoolean (map trim parts))))"

definition splitTranscriptParts :: "string \<Rightarrow> string list" where
  "splitTranscriptParts t = filterBoolean (map trim (splitLines [] t))"

text \<open>A non-blank string trimmed, or \<open>undefined\<close>.\<close>

definition trimmedOrUndefined :: "string option \<Rightarrow> string option" where
  "trimmedOrUndefined s =
     (case s of None \<Rightarrow> None | Some x \<Rightarrow> if trim x = [] then None else Some (trim x))"

definition toStoredChatAttachment :: "ChatAttachment \<Rightarrow> StoredChatAttachment option" where
  "toStoredChatAttachment a =
     (if trim (attId a) = [] then None
      else if trim (dataUrl a) = [] then None
      else if trim (mimeType a) = [] then None
      else
        let t = normalizeTranscript a
        in Some \<lparr>attId = trim (attId a),
                 kind = Some (if isVoiceNoteAttachment a then VoiceNote else Image),
                 dataUrl = trim (dataUrl a),
                 mimeType = trim (mimeType a),
                 fileName = trimmedOrUndefined (fileName a),
                 source = source a,
                 durationMs = map_option (max 0) (durationMs a),
                 transcript = (if t = [] then None else Some t),
                 transcriptParts = (if t = [] then None else Some (splitTranscriptParts t)),
                 persistedNoteId = trimmedOrUndefined (persistedNoteId a)\<rparr>)"

section \<open>Messages built from attachments\<close>

definition getLocalVoiceNoteMarkerId :: "jv \<Rightarrow> string option" where
  "getLocalVoiceNoteMarkerId message =
     (if truthy message \<and> typeofObject message then
        let marker = getProp message ''__openclaw''
        in if truthy marker \<and> getProp marker ''kind'' = JStr ''local-voice-note'' then
             (case getProp marker ''id'' of
                JStr i \<Rightarrow> if trim i = [] then None else Some (trim i)
              | _ \<Rightarrow> None)
           else None
      else None)"

text \<open>
  \<open>buildVoiceNoteContentBlock(attachment, opts)\<close>; the two options are the arguments
  \<open>optId\<close> (\<open>opts.persistedNoteId\<close>) and \<open>includePreviewUrl\<close>.
\<close>

definition buildVoiceNoteContentBlock :: "ChatAttachment \<Rightarrow> string option \<Rightarrow> bool \<Rightarrow> jv" where
  "buildVoiceNoteContentBlock a optId includePreviewUrl =
     (let t = normalizeTranscript a;
          fromOpts = (case optId of None \<Rightarrow> [] | Some p \<Rightarrow> trim p);
          pid = (if fromOpts \<noteq> [] then fromOpts
                 else (case persistedNoteId a of None \<Rightarrow> [] | Some p \<Rightarrow> trim p));
          block = [(''type'', JStr ''voice_note''),
                   (''source'', JObj [(''type'', JStr ''base64''),
                                      (''media_type'', JStr (mimeType a)),
                                      (''data'', JStr (dataUrl a))]),
                   (''mimeType'', JStr (mimeType a)),
                   (''fileName'', optStr (fileName a))];
          block1 = (if includePreviewUrl then
                      (case previewUrl a of
                         None \<Rightarrow> block
                       | Some u \<Rightarrow> if u = [] then block else objSet block ''url'' (JStr u))
                    else block);
          block2 = (if t = [] then block1
                    else objSet (objSet block1 ''transcript'' (JStr t))
                           ''transcriptParts'' (JArr (map JStr (splitTranscriptParts t))));
          block3 = (if pid = [] then block2 else objSet block2 ''persistedNoteId'' (JStr pid))
      in JObj block3)"

definition buildLocalVoiceNoteMessage :: "ChatAttachment \<Rightarrow> int \<Rightarrow> jv" where
  "buildLocalVoiceNoteMessage a ts =
     JObj [(''role'', JStr ''user''),
           (''content'', JArr [buildVoiceNoteContentBlock a None True]),
           (''timestamp'', JNum ts),
           (''__openclaw'', JObj [(''kind'', JStr ''local-voice-note''), (''id'', JStr (attId a))])]"

text \<open>
  The marker id of a message is trimmed and never empty, the attachment id it is compared
  with is a string as it stands.
\<close>

definition markerIs :: "jv \<Rightarrow> string \<Rightarrow> bool" where
  "markerIs message i \<longleftrightarrow> getLocalVoiceNoteMarkerId message = Some i"

definition updateLocalVoiceMessageInMemory :: "jv list \<Rightarrow> ChatAttachment \<Rightarrow> int \<Rightarrow> jv list" where
  "updateLocalVoiceMessageInMemory messages a ts =
     (let markerId = attId a;
          nextMessage = buildLocalVoiceNoteMessage a ts;
          replaced = list_ex (\<lambda>m. markerIs m markerId) messages;
          next = map (\<lambda>m. if markerIs m markerId then nextMessage else m) messages
      in if replaced then next else next @ [nextMessage])"

definition patchBlock :: "string \<Rightarrow> jv \<Rightarrow> jv" where
  "patchBlock pid entry =
     (case entry of
        JObj block \<Rightarrow>
          let ty = (case getProp entry ''type'' of JStr s \<Rightarrow> toLowerCase s | _ \<Rightarrow> [])
          in if ty = ''voice_note'' \<or> ty = ''audio''
             then JObj (objSet block ''persistedNoteId'' (JStr pid))
             else entry
      | _ \<Rightarrow> entry)"

definition patchLocalVoiceMessagePersistedId :: "jv \<Rightarrow> string \<Rightarrow> string \<Rightarrow> jv" where
  "patchLocalVoiceMessagePersistedId message attachmentId pid =
     (if markerIs message attachmentId then
        (case message of
           JObj raw \<Rightarrow>
             (case getProp message ''content'' of
                JArr content \<Rightarrow> JObj (objSet raw ''content'' (JArr (map (patchBlock pid) content)))
              | _ \<Rightarrow> message)
         | _ \<Rightarrow> message)
      else message)"

definition hasLocalVoiceNoteMessage :: "jv list \<Rightarrow> string \<Rightarrow> bool" where
  "hasLocalVoiceNoteMessage messages attachmentId = list_ex (\<lambda>m. markerIs m attachmentId) messages"

section \<open>Cache mutations of the controller\<close>

definition syncChatComposerLocalState :: "'a ChatState_scheme \<Rightarrow> world \<Rightarrow> world" where
  "syncChatComposerLocalState st w =
     (let d = chatMessage st;
          storedAttachments =
            sliceLast LOCAL_CHAT_ATTACHMENTS_LIMIT
              (List.map_filter toStoredChatAttachment (chatAttachments st))
      in updateLocalSessionState (sessionKey st)
           (\<lambda>current.
              let next = current\<lparr>draft := (if d \<noteq> [] then Some d else None),
                                  attachments := (if storedAttachments \<noteq> []
                                                  then Some storedAttachments else None)\<rparr>;
                  hasVoiceNotes = (case voiceNotes next of Some v \<Rightarrow> v \<noteq> [] | None \<Rightarrow> False);
                  hasDraft = (case draft next of Some x \<Rightarrow> x \<noteq> [] | None \<Rightarrow> False);
                  hasAttachments = (case attachments next of Some x \<Rightarrow> x \<noteq> [] | None \<Rightarrow> False)
              in if hasVoiceNotes then Some next
                 else if hasDraft then Some next
                 else if hasAttachments then Some next
                 else None)
           w)"

definition updateLocalVoiceNotePersistence ::
  "'a ChatState_scheme \<Rightarrow> string \<Rightarrow> string \<Rightarrow> world \<Rightarrow> 'a ChatState_scheme \<times> world" where
  "updateLocalVoiceNotePersistence st attachmentId pid w =
     (let st1 = st\<lparr>chatAttachments :=
                    map (\<lambda>a. if attId a = attachmentId then a\<lparr>persistedNoteId := Some pid\<rparr> else a)
                      (chatAttachments st)\<rparr>;
          st2 = st1\<lparr>chatMessages :=
                     map (\<lambda>m. patchLocalVoiceMessagePersistedId m attachmentId pid)
                       (chatMessages st1)\<rparr>
      in (st2,
          updateLocalSessionState (sessionKey st2)
            (\<lambda>current.
               let nextVoiceNotes =
                     map_option
                       (map (\<lambda>e. if noteId e = attachmentId
                                  then e\<lparr>attachment := (attachment e)\<lparr>persistedNoteId := Some pid\<rparr>\<rparr>
                                  else e))
                       (voiceNotes current);
                   nextAttachments =
                     map_option
                       (map (\<lambda>e. if attId e = attachmentId then e\<lparr>persistedNoteId := Some pid\<rparr> else e))
                       (attachments current)
               in Some (current\<lparr>voiceNotes := nextVoiceNotes, attachments := nextAttachments\<rparr>))
            w))"

text \<open>
  \<open>appendLocalVoiceNoteMessage(state, attachment, opts)\<close>; \<open>optTimestamp\<close> is
  \<open>opts?.timestamp\<close>. \<open>Array.prototype.sort\<close> is stable, as \<open>sort_key\<close> is.
\<close>

definition appendLocalVoiceNoteMessage ::
  "'a ChatState_scheme \<Rightarrow> ChatAttachment \<Rightarrow> int option \<Rightarrow> world \<Rightarrow> 'a ChatState_scheme \<times> world" where
  "appendLocalVoiceNoteMessage st a optTimestamp w =
     (let (ts, w1) = (case optTimestamp of Some t \<Rightarrow> (t, w) | None \<Rightarrow> Date_now w);
          st1 = st\<lparr>chatMessages := updateLocalVoiceMessageInMemory (chatMessages st) a ts\<rparr>
      in (case toStoredChatAttachment a of
            None \<Rightarrow> (st1, w1)
          | Some storedAttachment \<Rightarrow>
              (st1,
               updateLocalSessionState (sessionKey st1)
                 (\<lambda>current.
                    let vns = (case voiceNotes current of Some v \<Rightarrow> v | None \<Rightarrow> []);
                        nextVoiceNotes =
                          sliceLast LOCAL_CHAT_VOICE_NOTES_LIMIT
                            (sort_key timestamp
                               (filter (\<lambda>e. noteId e \<noteq> attId a) vns
                                @ [\<lparr>noteId = attId a, timestamp = ts,
                                    attachment = storedAttachment\<rparr>]))
                    in Some (current\<lparr>voiceNotes := Some nextVoiceNotes\<rparr>))
                 w1)))"

section \<open>Example states\<close>

text \<open>The state the repository's tests start from (\<open>createState\<close>), with no client.\<close>

definition createState :: ChatState where
  "createState = \<lparr>client = None, connected = True, sessionKey = ''main'', chatLoading = False,
     chatMessages = [], chatThinkingLevel = None, chatSending = False, chatMessage = [],
     chatAttachments = [], chatRunId = None, chatStream = None, chatStreamStartedAt = None,
     lastError = None\<rparr>"

text \<open>A browser with an empty, working \<open>localStorage\<close>, a clock and a run-id source.\<close>

definition freshWorld :: world where
  "freshWorld = \<lparr>localStorage = Some \<lparr>item = None, setItemThrows = False\<rparr>,
     requests = [], warnings = [],
     dateNow = (\<lambda>n. 1700000000000 + int n), dateNowCalls = 0,
     generateUUID = (\<lambda>n. ''run-'' @ replicate (Suc n) (CHR ''a'')), uuidCalls = 0\<rparr>"

section \<open>History merge\<close>

text \<open>The first loop of \<open>mergeLocalVoiceNoteMessages\<close>: the marker ids the history carries.\<close>

fun collectSeen :: "string set \<Rightarrow> jv list \<Rightarrow> string set" where
  "collectSeen seen [] = seen"
| "collectSeen seen (m # ms) =
     (case getLocalVoiceNoteMarkerId m of
        Some markerId \<Rightarrow> collectSeen (insert markerId seen) ms
      | None \<Rightarrow> collectSeen seen ms)"

text \<open>The second loop: a local message is pushed unless it has no marker id or a seen one.\<close>

fun mergeLoop :: "string set \<Rightarrow> jv list \<Rightarrow> jv list \<Rightarrow> jv list" where
  "mergeLoop seen merged [] = merged"
| "mergeLoop seen merged (m # ms) =
     (case getLocalVoiceNoteMarkerId m of
        None \<Rightarrow> mergeLoop seen merged ms
      | Some markerId \<Rightarrow>
          if markerId \<in> seen then mergeLoop seen merged ms
          else mergeLoop (insert markerId seen) (merged @ [m]) ms)"

definition mergeLocalVoiceNoteMessages :: "jv list \<Rightarrow> jv list \<Rightarrow> jv list" where
  "mergeLocalVoiceNoteMessages history localVoiceNotes =
     (if localVoiceNotes = [] then history
      else mergeLoop (collectSeen {} history) history localVoiceNotes)"

text \<open>The marker ids carried by the messages of a list.\<close>

definition markerIds :: "jv list \<Rightarrow> string set" where
  "markerIds ms = {i. \<exists>m \<in> set ms. getLocalVoiceNoteMarkerId m = Some i}"

lemma markerIds_simps:
  "markerIds [] = {}"
  "markerIds (m # ms) =
     (case getLocalVoiceNoteMarkerId m of Some i \<Rightarrow> insert i (markerIds ms) | None \<Rightarrow> markerIds ms)"
  "markerIds (xs @ ys) = markerIds xs \<union> markerIds ys"
  by (auto simp: markerIds_def split: option.splits)

lemma collectSeen_markerIds: "collectSeen seen ms = seen \<union> markerIds ms"
  by (induction ms arbitrary: seen) (auto simp: markerIds_simps split: option.splits)

lemma mergeLoop_all_seen:
  "markerIds ls \<subseteq> seen \<Longrightarrow> mergeLoop seen merged ls = merged"
  by (induction ls arbitrary: seen merged) (auto simp: markerIds_simps split: option.splits)

lemma mergeLoop_keeps: "markerIds merged \<subseteq> markerIds (mergeLoop seen merged ls)"
proof (induction ls arbitrary: seen merged)
  case Nil
  show ?case by simp
next
  case (Cons m ms)
  have "markerIds merged \<subseteq> markerIds (merged @ [m])"
    by (simp add: markerIds_simps)
  also have "\<dots> \<subseteq> markerIds (mergeLoop seen' (merged @ [m]) ms)" for seen'
    by (rule Cons.IH)
  finally show ?case
    using Cons.IH [of merged seen] by (simp split: option.splits)
qed

lemma mergeLoop_carries:
  "seen \<subseteq> markerIds merged \<Longrightarrow> markerIds ls \<subseteq> markerIds (mergeLoop seen merged ls)"
proof (induction ls arbitrary: seen merged)
  case Nil
  show ?case by (simp add: markerIds_simps)
next
  case (Cons m ms)
  show ?case
  proof (cases "getLocalVoiceNoteMarkerId m")
    case None
    with Cons show ?thesis by (simp add: markerIds_simps)
  next
    case (Some i)
    show ?thesis
    proof (cases "i \<in> seen")
      case True
      then have "i \<in> markerIds (mergeLoop seen merged ms)"
        using mergeLoop_keeps [of merged seen ms] Cons.prems by blast
      with Some True Cons.IH [OF Cons.prems] show ?thesis by (simp add: markerIds_simps)
    next
      case False
      have sub: "insert i seen \<subseteq> markerIds (merged @ [m])"
        using Cons.prems Some by (auto simp: markerIds_simps)
      then have "i \<in> markerIds (mergeLoop (insert i seen) (merged @ [m]) ms)"
        using mergeLoop_keeps [of "merged @ [m]" "insert i seen" ms] by blast
      with Some False Cons.IH [OF sub] show ?thesis by (simp add: markerIds_simps)
    qed
  qed
qed

text \<open>The history itself is never reordered: the merge only appends to it.\<close>

lemma mergeLoop_appends: "\<exists>pushed. mergeLoop seen merged ls = merged @ pushed"
proof (induction ls arbitrary: seen merged)
  case Nil
  show ?case by simp
next
  case (Cons m ms)
  have "\<exists>pushed. mergeLoop seen' (merged @ [m]) ms = merged @ pushed" for seen'
    by (metis Cons.IH append.assoc)
  with Cons.IH [of seen merged] show ?case by (simp split: option.splits)
qed

lemma mergeLocalVoiceNoteMessages_appends:
  "\<exists>pushed. mergeLocalVoiceNoteMessages history localVoiceNotes = history @ pushed"
  using mergeLoop_appends [of "collectSeen {} history" history localVoiceNotes]
  by (auto simp: mergeLocalVoiceNoteMessages_def)

text \<open>
  C3. Merging the local voice-note messages into a history twice gives what merging them
  once gives: after the first merge every marker id of a local message is carried by the
  history, so the second merge pushes nothing.
\<close>

theorem C3_merge_idempotent:
  "mergeLocalVoiceNoteMessages (mergeLocalVoiceNoteMessages R L) L
     = mergeLocalVoiceNoteMessages R L"
proof (cases "L = []")
  case True
  then show ?thesis by (simp add: mergeLocalVoiceNoteMessages_def)
next
  case False
  let ?M = "mergeLoop (collectSeen {} R) R L"
  have "collectSeen {} R \<subseteq> markerIds R" by (simp add: collectSeen_markerIds)
  then have "markerIds L \<subseteq> markerIds ?M" by (rule mergeLoop_carries)
  then have "markerIds L \<subseteq> collectSeen {} ?M" by (simp add: collectSeen_markerIds)
  then have "mergeLoop (collectSeen {} ?M) ?M L = ?M" by (rule mergeLoop_all_seen)
  with False show ?thesis by (simp add: mergeLocalVoiceNoteMessages_def)
qed

section \<open>The run state machine: push events\<close>

datatype ChatEventState = StateDelta | StateFinal | StateAborted | StateError

text \<open>\<open>ChatEventPayload\<close>; \<open>payloadMessage\<close> is \<open>undefined\<close> when the event has none.\<close>

record ChatEventPayload =
  payloadRunId :: string
  payloadSessionKey :: string
  payloadState :: ChatEventState
  payloadMessage :: jv
  payloadErrorMessage :: "string option"

definition normalizeAbortedAssistantMessage :: "jv \<Rightarrow> jv option" where
  "normalizeAbortedAssistantMessage message =
     (if truthy message \<and> typeofObject message then
        if getProp message ''role'' = JStr ''assistant'' then
          if hasKey message ''content'' \<and> isArray (getProp message ''content'')
          then Some message else None
        else None
      else None)"

text \<open>
  \<open>payload.runId && state.chatRunId && payload.runId !== state.chatRunId\<close>: the event
  belongs to another run than the active one.
\<close>

definition foreignRun :: "'a ChatState_scheme \<Rightarrow> ChatEventPayload \<Rightarrow> bool" where
  "foreignRun st payload \<longleftrightarrow>
     payloadRunId payload \<noteq> [] \<and>
     (case chatRunId st of
        None \<Rightarrow> False
      | Some r \<Rightarrow> r \<noteq> [] \<and> payloadRunId payload \<noteq> r)"

text \<open>The assistant message synthesized from the stream buffer of an aborted run.\<close>

definition streamedMessage :: "string \<Rightarrow> int \<Rightarrow> jv" where
  "streamedMessage streamedText now =
     JObj [(''role'', JStr ''assistant''),
           (''content'', JArr [JObj [(''type'', JStr ''text''), (''text'', JStr streamedText)]]),
           (''timestamp'', JNum now)]"

definition clearRun :: "'a ChatState_scheme \<Rightarrow> 'a ChatState_scheme" where
  "clearRun st = st\<lparr>chatStream := None, chatRunId := None, chatStreamStartedAt := None\<rparr>"

text \<open>
  \<open>handleChatEvent(state, payload)\<close>. \<open>extractText\<close> (chat/message-extract.ts) is not
  part of the sources at hand: it is a parameter, a function from a message to its display
  text or \<open>null\<close>. The result is the transition name returned to the caller, \<open>None\<close>
  for \<open>null\<close>.
\<close>

definition handleChatEvent ::
  "(jv \<Rightarrow> string option) \<Rightarrow> 'a ChatState_scheme \<Rightarrow> ChatEventPayload option \<Rightarrow> world
     \<Rightarrow> (ChatEventState option \<times> 'a ChatState_scheme) \<times> world" where
  "handleChatEvent extractText st payloadOpt w =
     (case payloadOpt of
        None \<Rightarrow> ((None, st), w)
      | Some payload \<Rightarrow>
          if payloadSessionKey payload \<noteq> sessionKey st then ((None, st), w)
          else if foreignRun st payload then
            (if payloadState payload = StateFinal then ((Some StateFinal, st), w)
             else ((None, st), w))
          else
            (case payloadState payload of
               StateDelta \<Rightarrow>
                 (case extractText (payloadMessage payload) of
                    None \<Rightarrow> ((Some StateDelta, st), w)
                  | Some next \<Rightarrow>
                      let current = (case chatStream st of None \<Rightarrow> [] | Some c \<Rightarrow> c)
                      in if current = [] \<or> length current \<le> length next
                         then ((Some StateDelta, st\<lparr>chatStream := Some next\<rparr>), w)
                         else ((Some StateDelta, st), w))
             | StateFinal \<Rightarrow> ((Some StateFinal, clearRun st), w)
             | StateAborted \<Rightarrow>
                 (case normalizeAbortedAssistantMessage (payloadMessage payload) of
                    Some normalizedMessage \<Rightarrow>
                      ((Some StateAborted,
                        clearRun (st\<lparr>chatMessages := chatMessages st @ [normalizedMessage]\<rparr>)), w)
                  | None \<Rightarrow>
                      let streamedText = (case chatStream st of None \<Rightarrow> [] | Some c \<Rightarrow> c)
                      in if trim streamedText \<noteq> [] then
                           let (now, w1) = Date_now w
                           in ((Some StateAborted,
                                clearRun (st\<lparr>chatMessages :=
                                             chatMessages st @ [streamedMessage streamedText now]\<rparr>)),
                               w1)
                         else ((Some StateAborted, clearRun st), w))
             | StateError \<Rightarrow>
                 ((Some StateError,
                   (clearRun st)\<lparr>lastError :=
                      Some (case payloadErrorMessage payload of
                              None \<Rightarrow> ''chat error'' | Some e \<Rightarrow> e)\<rparr>), w)))"

text \<open>A display-text extractor for the examples: the text of a string message.\<close>

fun textOfString :: "jv \<Rightarrow> string option" where
  "textOfString (JStr s) = Some s"
| "textOfString v = None"

text \<open>
  C4. A delta event of the current session that is not of another run, and whose message
  has a display text: the text replaces the stream buffer exactly when the buffer is null
  or empty or not longer than the text; otherwise the buffer stays. Nothing else of the
  state changes and \<open>delta\<close> is returned.
\<close>

theorem C4_delta_monotonic_guard:
  assumes "payloadSessionKey payload = sessionKey st"
    and "\<not> foreignRun st payload"
    and "payloadState payload = StateDelta"
    and "extractText (payloadMessage payload) = Some next"
  shows "handleChatEvent extractText st (Some payload) w =
           ((Some StateDelta,
             st\<lparr>chatStream :=
                  (if chatStream st = None \<or> chatStream st = Some []
                      \<or> length (the (chatStream st)) \<le> length next
                   then Some next else chatStream st)\<rparr>), w)"
  using assms by (cases "chatStream st") (auto simp: handleChatEvent_def)

theorem C4_delta_hello_witness:
  "chatStream (snd (fst (handleChatEvent textOfString
       (createState\<lparr>chatRunId := Some ''run-1'', chatStream := Some ''Hello''\<rparr>)
       (Some \<lparr>payloadRunId = ''run-1'', payloadSessionKey = ''main'', payloadState = StateDelta,
              payloadMessage = JStr ''He'', payloadErrorMessage = None\<rparr>) freshWorld)))
     = Some ''Hello''
   \<and> chatStream (snd (fst (handleChatEvent textOfString
       (createState\<lparr>chatRunId := Some ''run-1'', chatStream := Some ''Hello''\<rparr>)
       (Some \<lparr>payloadRunId = ''run-1'', payloadSessionKey = ''main'', payloadState = StateDelta,
              payloadMessage = JStr ''Hello world'', payloadErrorMessage = None\<rparr>) freshWorld)))
     = Some ''Hello world''"
  using
    C4_delta_monotonic_guard [of
      "\<lparr>payloadRunId = ''run-1'', payloadSessionKey = ''main'', payloadState = StateDelta,
        payloadMessage = JStr ''He'', payloadErrorMessage = None\<rparr>"
      "createState\<lparr>chatRunId := Some ''run-1'', chatStream := Some ''Hello''\<rparr>"
      textOfString "''He''" freshWorld]
    C4_delta_monotonic_guard [of
      "\<lparr>payloadRunId = ''run-1'', payloadSessionKey = ''main'', payloadState = StateDelta,
        payloadMessage = JStr ''Hello world'', payloadErrorMessage = None\<rparr>"
      "createState\<lparr>chatRunId := Some ''run-1'', chatStream := Some ''Hello''\<rparr>"
      textOfString "''Hello world''" freshWorld]
  by (simp add: createState_def foreignRun_def)

text \<open>
  C5. A final event of the current session: when it is of another run than the active one
  (both run ids non-empty and different), \<open>final\<close> is returned and the state is left as
  it was; when it is not of another run, \<open>final\<close> is returned and the stream buffer, the
  run id and the start time are null afterwards, nothing else changed.
\<close>

theorem C5_final_foreign_and_own:
  assumes "payloadSessionKey payload = sessionKey st"
    and "payloadState payload = StateFinal"
  shows "(payloadRunId payload \<noteq> [] \<and> chatRunId st = Some r \<and> r \<noteq> [] \<and> payloadRunId payload \<noteq> r
            \<longrightarrow> handleChatEvent extractText st (Some payload) w = ((Some StateFinal, st), w))
       \<and> (\<not> foreignRun st payload
            \<longrightarrow> handleChatEvent extractText st (Some payload) w =
                  ((Some StateFinal,
                    st\<lparr>chatStream := None, chatRunId := None, chatStreamStartedAt := None\<rparr>), w))"
  using assms by (auto simp: handleChatEvent_def foreignRun_def clearRun_def)

theorem C5_final_witness:
  "handleChatEvent textOfString
       (createState\<lparr>chatRunId := Some ''run-user'', chatStream := Some ''Working...'',
                     chatStreamStartedAt := Some 123\<rparr>)
       (Some \<lparr>payloadRunId = ''run-announce'', payloadSessionKey = ''main'',
              payloadState = StateFinal, payloadMessage = JUndefined,
              payloadErrorMessage = None\<rparr>) freshWorld
     = ((Some StateFinal,
         createState\<lparr>chatRunId := Some ''run-user'', chatStream := Some ''Working...'',
                      chatStreamStartedAt := Some 123\<rparr>), freshWorld)
   \<and> handleChatEvent textOfString
       (createState\<lparr>chatRunId := Some ''run-1'', chatStream := Some ''Reply'',
                     chatStreamStartedAt := Some 100\<rparr>)
       (Some \<lparr>payloadRunId = ''run-1'', payloadSessionKey = ''main'',
              payloadState = StateFinal, payloadMessage = JUndefined,
              payloadErrorMessage = None\<rparr>) freshWorld
     = ((Some StateFinal, createState), freshWorld)"
  using
    C5_final_foreign_and_own [of
      "\<lparr>payloadRunId = ''run-announce'', payloadSessionKey = ''main'',
        payloadState = StateFinal, payloadMessage = JUndefined, payloadErrorMessage = None\<rparr>"
      "createState\<lparr>chatRunId := Some ''run-user'', chatStream := Some ''Working...'',
                    chatStreamStartedAt := Some 123\<rparr>"
      "''run-user''" textOfString freshWorld]
    C5_final_foreign_and_own [of
      "\<lparr>payloadRunId = ''run-1'', payloadSessionKey = ''main'',
        payloadState = StateFinal, payloadMessage = JUndefined, payloadErrorMessage = None\<rparr>"
      "createState\<lparr>chatRunId := Some ''run-1'', chatStream := Some ''Reply'',
                    chatStreamStartedAt := Some 100\<rparr>"
      "''run-1''" textOfString freshWorld]
  by (simp add: createState_def foreignRun_def)

text \<open>
  A well-formed assistant message, in the spec's words: an object whose role is
  \<open>assistant\<close> and whose content is an array.
\<close>

fun wellFormedAssistantMessage :: "jv \<Rightarrow> bool" where
  "wellFormedAssistantMessage (JObj kvs) =
     (map_of kvs ''role'' = Some (JStr ''assistant'') \<and>
      (case map_of kvs ''content'' of Some (JArr content) \<Rightarrow> True | _ \<Rightarrow> False))"
| "wellFormedAssistantMessage v = False"

text \<open>A string that holds a character that is not white space.\<close>

definition hasNonWhitespace :: "string \<Rightarrow> bool" where
  "hasNonWhitespace s = list_ex (\<lambda>c. \<not> is_ws c) s"

lemma trim_empty_iff: "trim s = [] \<longleftrightarrow> \<not> hasNonWhitespace s"
proof -
  have "(\<forall>x \<in> set (dropWhile is_ws s). is_ws x) \<longleftrightarrow> (\<forall>x \<in> set s. is_ws x)"
  proof
    assume all: "\<forall>x \<in> set (dropWhile is_ws s). is_ws x"
    show "\<forall>x \<in> set s. is_ws x"
    proof (rule ccontr)
      assume "\<not> (\<forall>x \<in> set s. is_ws x)"
      then have ne: "dropWhile is_ws s \<noteq> []" by (simp add: dropWhile_eq_Nil_conv)
      then have "\<not> is_ws (hd (dropWhile is_ws s))" by (rule hd_dropWhile)
      moreover have "hd (dropWhile is_ws s) \<in> set (dropWhile is_ws s)" using ne by simp
      ultimately show False using all by blast
    qed
  next
    assume "\<forall>x \<in> set s. is_ws x"
    then show "\<forall>x \<in> set (dropWhile is_ws s). is_ws x"
      using set_dropWhileD by fastforce
  qed
  then show ?thesis
    by (simp add: trim_def hasNonWhitespace_def dropWhile_eq_Nil_conv list_ex_iff)
qed

lemma normalizeAbortedAssistantMessage_wellFormed:
  "normalizeAbortedAssistantMessage m = (if wellFormedAssistantMessage m then Some m else None)"
proof (cases m)
  case (JObj kvs)
  show ?thesis
  proof (cases "map_of kvs ''content''")
    case None
    then have "''content'' \<notin> fst ` set kvs" by (simp add: map_of_eq_None_iff)
    with JObj None show ?thesis by (simp add: normalizeAbortedAssistantMessage_def)
  next
    case (Some c)
    then have "''content'' \<in> fst ` set kvs" by (metis map_of_eq_None_iff option.distinct(1))
    with JObj Some show ?thesis
      by (cases c) (auto simp: normalizeAbortedAssistantMessage_def split: option.splits)
  qed
qed (simp_all add: normalizeAbortedAssistantMessage_def)

text \<open>
  C6. An aborted event of the current session that is not of another run returns
  \<open>aborted\<close> and clears the stream buffer, the run id and the start time. Before that,
  a well-formed assistant message of the event is appended to the history as it is;
  failing that, a stream buffer with non-white-space text is appended as a synthesized
  assistant message with one text block, stamped with the current time; failing both,
  the history is left as it was.
\<close>

theorem C6_aborted_own_run:
  assumes "payloadSessionKey payload = sessionKey st"
    and "\<not> foreignRun st payload"
    and "payloadState payload = StateAborted"
  shows "handleChatEvent extractText st (Some payload) w =
     (if wellFormedAssistantMessage (payloadMessage payload) then
        ((Some StateAborted,
          st\<lparr>chatMessages := chatMessages st @ [payloadMessage payload],
             chatStream := None, chatRunId := None, chatStreamStartedAt := None\<rparr>), w)
      else if hasNonWhitespace (case chatStream st of None \<Rightarrow> [] | Some b \<Rightarrow> b) then
        ((Some StateAborted,
          st\<lparr>chatMessages := chatMessages st @
                 [JObj [(''role'', JStr ''assistant''),
                        (''content'', JArr [JObj [(''type'', JStr ''text''),
                                                  (''text'', JStr (the (chatStream st)))]]),
                        (''timestamp'', JNum (dateNow w (dateNowCalls w)))]],
             chatStream := None, chatRunId := None, chatStreamStartedAt := None\<rparr>),
         w\<lparr>dateNowCalls := Suc (dateNowCalls w)\<rparr>)
      else
        ((Some StateAborted,
          st\<lparr>chatStream := None, chatRunId := None, chatStreamStartedAt := None\<rparr>), w))"
proof (cases "wellFormedAssistantMessage (payloadMessage payload)")
  case True
  with assms show ?thesis
    by (simp add: handleChatEvent_def normalizeAbortedAssistantMessage_wellFormed clearRun_def)
next
  case False
  show ?thesis
  proof (cases "chatStream st")
    case None
    with False assms show ?thesis
      by (simp add: handleChatEvent_def normalizeAbortedAssistantMessage_wellFormed
          clearRun_def trim_empty_iff hasNonWhitespace_def)
  next
    case (Some b)
    with False assms show ?thesis
      by (simp add: handleChatEvent_def normalizeAbortedAssistantMessage_wellFormed
          clearRun_def trim_empty_iff Date_now_def streamedMessage_def)
  qed
qed

text \<open>The running state and the aborted events of the repository's tests.\<close>

definition abortedState :: "string \<Rightarrow> ChatState" where
  "abortedState buffer =
     createState\<lparr>chatRunId := Some ''run-1'', chatStream := Some buffer,
                  chatStreamStartedAt := Some 100,
                  chatMessages := [JObj [(''role'', JStr ''user''),
                                         (''content'', JArr [JObj [(''type'', JStr ''text''),
                                                                   (''text'', JStr ''Hi'')]]),
                                         (''timestamp'', JNum 1)]]\<rparr>"

definition abortedEvent :: "jv \<Rightarrow> ChatEventPayload" where
  "abortedEvent m = \<lparr>payloadRunId = ''run-1'', payloadSessionKey = ''main'',
     payloadState = StateAborted, payloadMessage = m, payloadErrorMessage = None\<rparr>"

definition partialMessage :: jv where
  "partialMessage = JObj [(''role'', JStr ''assistant''),
                          (''content'', JArr [JObj [(''type'', JStr ''text''),
                                                    (''text'', JStr ''Partial reply'')]]),
                          (''timestamp'', JNum 2)]"

theorem C6_aborted_witness:
  "chatMessages (snd (fst (handleChatEvent textOfString (abortedState ''Partial reply'')
       (Some (abortedEvent partialMessage)) freshWorld)))
     = chatMessages (abortedState ''Partial reply'') @ [partialMessage]
   \<and> chatMessages (snd (fst (handleChatEvent textOfString (abortedState ''Partial reply'')
       (Some (abortedEvent (JStr ''not-an-assistant-message''))) freshWorld)))
     = chatMessages (abortedState ''Partial reply'') @
         [JObj [(''role'', JStr ''assistant''),
                (''content'', JArr [JObj [(''type'', JStr ''text''),
                                          (''text'', JStr ''Partial reply'')]]),
                (''timestamp'', JNum 1700000000000)]]
   \<and> chatMessages (snd (fst (handleChatEvent textOfString (abortedState [])
       (Some (abortedEvent JUndefined)) freshWorld)))
     = chatMessages (abortedState [])
   \<and> chatRunId (snd (fst (handleChatEvent textOfString (abortedState ''Partial reply'')
       (Some (abortedEvent partialMessage)) freshWorld))) = None"
  using
    C6_aborted_own_run [of "abortedEvent partialMessage" "abortedState ''Partial reply''"
      textOfString freshWorld]
    C6_aborted_own_run [of "abortedEvent (JStr ''not-an-assistant-message'')"
      "abortedState ''Partial reply''" textOfString freshWorld]
    C6_aborted_own_run [of "abortedEvent JUndefined" "abortedState []"
      textOfString freshWorld]
  by (simp add: abortedEvent_def abortedState_def createState_def foreignRun_def
      partialMessage_def hasNonWhitespace_def is_ws_def freshWorld_def)

section \<open>Durable persistence of a voice note and sending\<close>

text \<open>
  \<open>persistVoiceNoteAttachment(state, attachment)\<close>. The result is \<open>Inl e\<close> when the
  save request rejects (the promise of the function rejects with it), \<open>Inr None\<close> for
  \<open>null\<close>, \<open>Inr (Some id)\<close> for an id. The attachment object is written to
  (\<open>attachment.persistedNoteId = persistedId\<close>), so it is returned as left.
\<close>

definition persistVoiceNoteAttachment ::
  "'a ChatState_scheme \<Rightarrow> ChatAttachment \<Rightarrow> world
     \<Rightarrow> (outcome \<times> ChatAttachment \<times> 'a ChatState_scheme) \<times> world" where
  "persistVoiceNoteAttachment st a w =
     (case client st of
        None \<Rightarrow> ((Inr None, a, st), w)
      | Some c \<Rightarrow>
          if connected st then
            let existing = (case persistedNoteId a of None \<Rightarrow> [] | Some p \<Rightarrow> trim p)
            in if existing \<noteq> [] then ((Inr (Some existing), a, st), w)
               else
                 (case dataUrlToBase64 (dataUrl a) of
                    None \<Rightarrow> ((Inr None, a, st), w)
                  | Some (content, mime) \<Rightarrow>
                      let t = normalizeTranscript a;
                          (result, w1) =
                            request c
                              (VoiceNotesSave
                                 \<lparr>save_sessionKey = sessionKey st,
                                  save_source = (case source a of None \<Rightarrow> Upload | Some s \<Rightarrow> s),
                                  save_durationMs = durationMs a,
                                  save_transcript = (if t = [] then None else Some t),
                                  save_transcriptParts =
                                    (if t = [] then None else Some (splitTranscriptParts t)),
                                  audio_mimeType = (if mime \<noteq> [] then mime else mimeType a),
                                  audio_fileName = fileName a,
                                  audio_content = content\<rparr>) w
                      in (case result of
                            Inl err \<Rightarrow> ((Inl err, a, st), w1)
                          | Inr noteIdOpt \<Rightarrow>
                              let persistedId = (case noteIdOpt of None \<Rightarrow> [] | Some i \<Rightarrow> trim i)
                              in if persistedId = [] then ((Inr None, a, st), w1)
                                 else
                                   let a' = a\<lparr>persistedNoteId := Some persistedId\<rparr>;
                                       (st', w2) =
                                         updateLocalVoiceNotePersistence st (attId a) persistedId w1
                                   in ((Inr (Some persistedId), a', st'), w2)))
          else ((Inr None, a, st), w))"

text \<open>A natural number in decimal, as a template literal prints it.\<close>

fun decimal :: "nat \<Rightarrow> string" where
  "decimal n = (if n < 10 then [''0123456789'' ! n]
                else decimal (n div 10) @ [''0123456789'' ! (n mod 10)])"

definition buildVoiceNotePromptText :: "ChatAttachment list \<Rightarrow> string" where
  "buildVoiceNotePromptText voiceNotes' =
     (if voiceNotes' = [] then []
      else
        trim (join [CHR 0x0A, CHR 0x0A]
          (map (\<lambda>(a, index).
                  let label = (case fileName a of
                                 None \<Rightarrow> ''Voice note '' @ decimal (index + 1)
                               | Some f \<Rightarrow> if trim f = [] then ''Voice note '' @ decimal (index + 1)
                                           else trim f);
                      t = normalizeTranscript a
                  in if t = [] then ''['' @ label @ '']''
                     else ''['' @ label @ '' transcript]'' @ [CHR 0x0A] @ t)
             (zip voiceNotes' [0 ..< length voiceNotes']))))"

text \<open>
  The callback \<open>sendChatMessage\<close> maps over the voice notes: a note with a known id is
  entered in the map \<open>persistedVoiceNoteIds\<close>; any other is persisted, a rejection caught
  and logged as a warning. The result holds the attachment object as left.
\<close>

definition persistOrWarn ::
  "'a ChatState_scheme \<Rightarrow> ChatAttachment \<Rightarrow> (string \<Rightarrow> string option) \<Rightarrow> world
     \<Rightarrow> (ChatAttachment \<times> (string \<Rightarrow> string option) \<times> 'a ChatState_scheme) \<times> world" where
  "persistOrWarn st a ids w =
     (let knownId = (case persistedNoteId a of None \<Rightarrow> [] | Some p \<Rightarrow> trim p)
      in if knownId \<noteq> [] then ((a, ids(attId a \<mapsto> knownId), st), w)
         else
           (case persistVoiceNoteAttachment st a w of
              ((Inl err, a1, st1), w1) \<Rightarrow> ((a1, ids, st1), console_warn err w1)
            | ((Inr None, a1, st1), w1) \<Rightarrow> ((a1, ids, st1), w1)
            | ((Inr (Some persistedId), a1, st1), w1) \<Rightarrow>
                ((a1, ids(attId a \<mapsto> persistedId), st1), w1)))"

text \<open>
  The \<open>Promise.all\<close> over the voice notes, the callbacks taken in the order of the array,
  each one finished before the next starts: the order in which they issue their requests
  and, when the saves settle in that order, the order in which they go on.
\<close>

fun persistVoiceNotes ::
  "'a ChatState_scheme \<Rightarrow> ChatAttachment list \<Rightarrow> (string \<Rightarrow> string option) \<Rightarrow> world
     \<Rightarrow> (ChatAttachment list \<times> (string \<Rightarrow> string option) \<times> 'a ChatState_scheme) \<times> world" where
  "persistVoiceNotes st [] ids w = (([], ids, st), w)"
| "persistVoiceNotes st (a # as) ids w =
     (case persistOrWarn st a ids w of
        ((a1, ids1, st1), w1) \<Rightarrow>
          (case persistVoiceNotes st1 as ids1 w1 of
             ((as', ids', st'), w') \<Rightarrow> ((a1 # as', ids', st'), w')))"

text \<open>
  The attachments passed to \<open>sendChatMessage\<close> as the send leaves them: the voice notes
  among them are the objects the saves wrote to.
\<close>

fun writtenAttachments :: "ChatAttachment list \<Rightarrow> ChatAttachment list \<Rightarrow> ChatAttachment list" where
  "writtenAttachments [] vs = []"
| "writtenAttachments (a # as) vs =
     (if isVoiceNoteAttachment a then
        (case vs of
           [] \<Rightarrow> a # writtenAttachments as []
         | v # vs' \<Rightarrow> v # writtenAttachments as vs')
      else a # writtenAttachments as vs)"

definition textBlock :: "string \<Rightarrow> jv" where
  "textBlock t = JObj [(''type'', JStr ''text''), (''text'', JStr t)]"

definition imageBlock :: "ChatAttachment \<Rightarrow> jv" where
  "imageBlock att =
     JObj [(''type'', JStr ''image''),
           (''source'', JObj [(''type'', JStr ''base64''),
                              (''media_type'', JStr (mimeType att)),
                              (''data'', JStr (dataUrl att))])]"

definition userMessage :: "jv list \<Rightarrow> int \<Rightarrow> jv" where
  "userMessage contentBlocks now =
     JObj [(''role'', JStr ''user''), (''content'', JArr contentBlocks), (''timestamp'', JNum now)]"

definition errorMessage :: "string \<Rightarrow> int \<Rightarrow> jv" where
  "errorMessage error now =
     JObj [(''role'', JStr ''assistant''),
           (''content'', JArr [textBlock (''Error: '' @ error)]),
           (''timestamp'', JNum now)]"

definition toApiAttachment :: "ChatAttachment \<Rightarrow> ApiAttachment option" where
  "toApiAttachment att =
     (case dataUrlToBase64 (dataUrl att) of
        None \<Rightarrow> None
      | Some (content, mime) \<Rightarrow>
          Some \<lparr>api_type = ''image'', api_mimeType = mime, api_content = content\<rparr>)"

text \<open>
  \<open>sendChatMessage(state, message, attachments)\<close>. The result is the run id (\<open>None\<close> for
  \<open>null\<close>), the attachments as the send leaves them, and the state. No push event is
  handled while the function waits for a request.
\<close>

definition sendChatMessage ::
  "'a ChatState_scheme \<Rightarrow> string \<Rightarrow> ChatAttachment list option \<Rightarrow> world
     \<Rightarrow> (string option \<times> ChatAttachment list \<times> 'a ChatState_scheme) \<times> world" where
  "sendChatMessage st message attachmentsOpt w =
     (let allAttachments = (case attachmentsOpt of None \<Rightarrow> [] | Some as \<Rightarrow> as)
      in case client st of
           None \<Rightarrow> ((None, allAttachments, st), w)
         | Some c \<Rightarrow>
             if connected st then
               let msg = trim message;
                   imageAttachments = filter (\<lambda>a. \<not> isVoiceNoteAttachment a) allAttachments;
                   voiceNoteAttachments = filter isVoiceNoteAttachment allAttachments
               in if msg = [] \<and> imageAttachments = [] \<and> voiceNoteAttachments = []
                  then ((None, allAttachments, st), w)
                  else
                    let voicePromptText = buildVoiceNotePromptText voiceNoteAttachments;
                        outboundMessage =
                          join [CHR 0x0A, CHR 0x0A] (filterBoolean [msg, voicePromptText]);
                        (now, w0) = Date_now w
                    in case persistVoiceNotes st voiceNoteAttachments Map.empty w0 of
                         ((voiceNotes', persistedVoiceNoteIds, st1), w1) \<Rightarrow>
                           let contentBlocks =
                                 (if msg \<noteq> [] then [textBlock msg] else [])
                                 @ map imageBlock imageAttachments
                                 @ map (\<lambda>att. buildVoiceNoteContentBlock att
                                                  (persistedVoiceNoteIds (attId att)) True)
                                     (filter (\<lambda>att. \<not> hasLocalVoiceNoteMessage
                                                         (chatMessages st1) (attId att))
                                        voiceNotes');
                               st2 = (if contentBlocks \<noteq> []
                                      then st1\<lparr>chatMessages :=
                                                 chatMessages st1 @ [userMessage contentBlocks now]\<rparr>
                                      else st1);
                               (runId, w2) = nextUUID w1;
                               st3 = st2\<lparr>chatSending := True, lastError := None,
                                        chatRunId := Some runId, chatStream := Some [],
                                        chatStreamStartedAt := Some now\<rparr>;
                               apiAttachments =
                                 (if imageAttachments \<noteq> []
                                  then Some (List.map_filter toApiAttachment imageAttachments)
                                  else None);
                               (result, w3) =
                                 request c
                                   (ChatSend \<lparr>send_sessionKey = sessionKey st3,
                                              send_message = outboundMessage,
                                              send_deliver = False,
                                              send_idempotencyKey = runId,
                                              send_attachments = apiAttachments\<rparr>) w2;
                               written = writtenAttachments allAttachments voiceNotes'
                           in (case result of
                                 Inr r \<Rightarrow> ((Some runId, written, st3\<lparr>chatSending := False\<rparr>), w3)
                               | Inl error \<Rightarrow>
                                   let (now', w4) = Date_now w3
                                   in ((None, written,
                                        st3\<lparr>chatRunId := None, chatStream := None,
                                           chatStreamStartedAt := None, lastError := Some error,
                                           chatMessages :=
                                             chatMessages st3 @ [errorMessage error now'],
                                           chatSending := False\<rparr>), w4))
             else ((None, allAttachments, st), w))"

definition abortChatRun :: "'a ChatState_scheme \<Rightarrow> world \<Rightarrow> (bool \<times> 'a ChatState_scheme) \<times> world" where
  "abortChatRun st w =
     (case client st of
        None \<Rightarrow> ((False, st), w)
      | Some c \<Rightarrow>
          if connected st then
            let runId = chatRunId st;
                (result, w1) =
                  request c
                    (ChatAbort (sessionKey st)
                       (case runId of None \<Rightarrow> None | Some r \<Rightarrow> if r = [] then None else Some r)) w
            in (case result of
                  Inr r \<Rightarrow> ((True, st), w1)
                | Inl err \<Rightarrow> ((False, st\<lparr>lastError := Some err\<rparr>), w1))
          else ((False, st), w))"

section \<open>The send queue (app-chat.ts)\<close>

record ChatQueueItem =
  itemId :: string
  itemText :: string
  createdAt :: int
  itemAttachments :: "ChatAttachment list option"
  itemRefreshSessions :: "bool option"

text \<open>
  \<open>ChatHost\<close> and \<open>ChatState\<close> are two views of the one application object (the host
  is cast to the application type at every call of the controller): the host is the
  state with the queue and the recording fields. \<open>basePath\<close>, \<open>hello\<close> and
  \<open>chatAvatarUrl\<close> belong to the avatar refresh and are left out.
\<close>

record ChatHost = ChatState +
  chatQueue :: "ChatQueueItem list"
  chatRecording :: bool
  chatRecordError :: "string option"
  refreshSessionsAfterChat :: "string set"

text \<open>\<open>Boolean(v)\<close> of an optional string.\<close>

definition truthyStr :: "string option \<Rightarrow> bool" where
  "truthyStr v = (case v of None \<Rightarrow> False | Some s \<Rightarrow> s \<noteq> [])"

definition isChatBusy :: "'a ChatHost_scheme \<Rightarrow> bool" where
  "isChatBusy host \<longleftrightarrow> chatSending host \<or> truthyStr (chatRunId host)"

definition isChatStopCommand :: "string \<Rightarrow> bool" where
  "isChatStopCommand t =
     (let trimmed = trim t
      in if trimmed = [] then False
         else
           let normalized = toLowerCase trimmed
           in if normalized = ''/stop'' then True
              else normalized = ''stop'' \<or> normalized = ''esc'' \<or> normalized = ''abort''
                   \<or> normalized = ''wait'' \<or> normalized = ''exit'')"

definition isChatResetCommand :: "string \<Rightarrow> bool" where
  "isChatResetCommand t =
     (let trimmed = trim t
      in if trimmed = [] then False
         else
           let normalized = toLowerCase trimmed
           in if normalized = ''/new'' \<or> normalized = ''/reset'' then True
              else startsWith normalized ''/new '' \<or> startsWith normalized ''/reset '')"

definition handleAbortChat :: "ChatHost \<Rightarrow> world \<Rightarrow> ChatHost \<times> world" where
  "handleAbortChat host w =
     (if connected host then
        let host1 = host\<lparr>chatMessage := []\<rparr>;
            w1 = syncChatComposerLocalState host1 w
        in (case abortChatRun host1 w1 of ((ok, host2), w2) \<Rightarrow> (host2, w2))
      else (host, w))"

definition enqueueChatMessage ::
  "ChatHost \<Rightarrow> string \<Rightarrow> ChatAttachment list option \<Rightarrow> bool option \<Rightarrow> world \<Rightarrow> ChatHost \<times> world" where
  "enqueueChatMessage host t attachmentsOpt refreshSessions w =
     (let trimmed = trim t;
          hasAttachments = (case attachmentsOpt of None \<Rightarrow> False | Some as \<Rightarrow> as \<noteq> [])
      in if trimmed = [] \<and> \<not> hasAttachments then (host, w)
         else
           let (uuid, w1) = nextUUID w;
               (now, w2) = Date_now w1
           in (host\<lparr>chatQueue :=
                       chatQueue host @
                         [\<lparr>itemId = uuid, itemText = trimmed, createdAt = now,
                           itemAttachments = (if hasAttachments then attachmentsOpt else None),
                           itemRefreshSessions = refreshSessions\<rparr>]\<rparr>, w2))"

text \<open>The options of \<open>sendChatMessageNow\<close>; an absent boolean is \<open>False\<close>.\<close>

record SendOpts =
  optPreviousDraft :: "string option"
  optRestoreDraft :: bool
  optAttachments :: "ChatAttachment list option"
  optPreviousAttachments :: "ChatAttachment list option"
  optRestoreAttachments :: bool
  optRefreshSessions :: bool

text \<open>
  \<open>opts.previousAttachments\<close> as \<open>sendChatMessageNow\<close> reads it after the send. Where it
  is passed (\<open>handleSendChat\<close>), it is the array that is also passed as
  \<open>opts.attachments\<close>, or both are empty: it holds the attachment objects the send wrote
  to. So when the two are passed equal, what is read is the attachments as the send left
  them.
\<close>

definition previousAttachmentsRead :: "SendOpts \<Rightarrow> ChatAttachment list \<Rightarrow> ChatAttachment list option" where
  "previousAttachmentsRead opts written =
     (case optPreviousAttachments opts of
        None \<Rightarrow> None
      | Some previous \<Rightarrow>
          if optAttachments opts = Some previous then Some written else Some previous)"

text \<open>Only the attachments and the history of the state differ.\<close>

definition sameButLists :: "'a ChatState_scheme \<Rightarrow> 'a ChatState_scheme \<Rightarrow> bool" where
  "sameButLists st st' \<longleftrightarrow>
     (\<exists>atts msgs. st' = st\<lparr>chatAttachments := atts, chatMessages := msgs\<rparr>)"

lemma sameButLists_refl: "sameButLists st st"
  unfolding sameButLists_def
  by (rule exI [of _ "chatAttachments st"], rule exI [of _ "chatMessages st"]) simp

lemma sameButListsI: "st' = st\<lparr>chatAttachments := atts, chatMessages := msgs\<rparr> \<Longrightarrow> sameButLists st st'"
  unfolding sameButLists_def by blast

lemma sameButLists_trans:
  assumes "sameButLists a b" and "sameButLists b c"
  shows "sameButLists a c"
proof -
  from assms(1) obtain atts msgs
    where b: "b = a\<lparr>chatAttachments := atts, chatMessages := msgs\<rparr>"
    unfolding sameButLists_def by blast
  from assms(2) obtain atts' msgs'
    where c: "c = b\<lparr>chatAttachments := atts', chatMessages := msgs'\<rparr>"
    unfolding sameButLists_def by blast
  have "c = a\<lparr>chatAttachments := atts', chatMessages := msgs'\<rparr>"
    by (simp add: b c)
  then show ?thesis by (rule sameButListsI)
qed

lemma updateLocalVoiceNotePersistence_frame:
  "updateLocalVoiceNotePersistence st i p w = (st', w') \<Longrightarrow> sameButLists st st'"
  unfolding updateLocalVoiceNotePersistence_def Let_def
  by (auto intro!: sameButListsI)

lemma sameButLists_chatQueue: "sameButLists (h::ChatHost) h' \<Longrightarrow> chatQueue h' = chatQueue h"
  unfolding sameButLists_def by auto

lemma persistVoiceNoteAttachment_frame:
  assumes "persistVoiceNoteAttachment st a w = ((r, a', st'), w')"
  shows "sameButLists st st'"
proof (cases "\<exists>c content mime rid. client st = Some c \<and> connected st
         \<and> (case persistedNoteId a of None \<Rightarrow> [] | Some p \<Rightarrow> trim p) = []
         \<and> dataUrlToBase64 (dataUrl a) = Some (content, mime)")
  case False
  with assms have "st' = st"
    by (auto simp: persistVoiceNoteAttachment_def Let_def split: option.splits if_splits)
  then show ?thesis by (simp add: sameButLists_refl)
next
  case True
  then obtain c content mime where h: "client st = Some c" "connected st"
     "(case persistedNoteId a of None \<Rightarrow> [] | Some p \<Rightarrow> trim p) = []"
     "dataUrlToBase64 (dataUrl a) = Some (content, mime)" by blast
  from assms h show ?thesis
    by (auto simp: persistVoiceNoteAttachment_def Let_def sameButLists_refl
        split: sum.splits prod.splits if_splits
        dest: updateLocalVoiceNotePersistence_frame)
qed

lemma persistOrWarn_frame:
  assumes "persistOrWarn st a ids w = ((a', ids', st'), w')"
  shows "sameButLists st st'"
proof (cases "(case persistedNoteId a of None \<Rightarrow> [] | Some p \<Rightarrow> trim p) = []")
  case False
  with assms have "st' = st" by (auto simp: persistOrWarn_def Let_def)
  then show ?thesis by (simp add: sameButLists_refl)
next
  case True
  obtain r a1 st1 w1 where p: "persistVoiceNoteAttachment st a w = ((r, a1, st1), w1)"
    by (metis prod.exhaust)
  with assms True have "st' = st1"
    by (auto simp: persistOrWarn_def Let_def split: sum.splits option.splits)
  with p show ?thesis by (auto dest: persistVoiceNoteAttachment_frame)
qed

lemma persistVoiceNotes_frame:
  "persistVoiceNotes st as ids w = ((as', ids', st'), w') \<Longrightarrow> sameButLists st st'"
proof (induction as arbitrary: st ids w as' ids' st' w')
  case Nil
  then show ?case by (simp add: sameButLists_refl)
next
  case (Cons a as)
  obtain a1 ids1 st1 w1 where one: "persistOrWarn st a ids w = ((a1, ids1, st1), w1)"
    by (metis prod.exhaust)
  obtain as2 ids2 st2 w2 where rest: "persistVoiceNotes st1 as ids1 w1 = ((as2, ids2, st2), w2)"
    by (metis prod.exhaust)
  from Cons.prems one rest have "st' = st2" by simp
  with persistOrWarn_frame [OF one] Cons.IH [OF rest] show ?case
    by (auto intro: sameButLists_trans)
qed

lemma sendChatMessage_chatQueue:
  assumes "sendChatMessage (host::ChatHost) m atts w = ((r, written, host'), w')"
  shows "chatQueue host' = chatQueue host"
proof (cases "\<exists>c. client host = Some c \<and> connected host \<and>
    \<not> (trim m = [] \<and> filter (\<lambda>a. \<not> isVoiceNoteAttachment a) (case atts of None \<Rightarrow> [] | Some as \<Rightarrow> as) = []
       \<and> filter isVoiceNoteAttachment (case atts of None \<Rightarrow> [] | Some as \<Rightarrow> as) = [])")
  case False
  with assms have "host' = host"
    by (auto simp: sendChatMessage_def Let_def split: option.splits if_splits)
  then show ?thesis by simp
next
  case True
  then obtain c where h: "client host = Some c" "connected host"
    "\<not> (trim m = [] \<and> filter (\<lambda>a. \<not> isVoiceNoteAttachment a) (case atts of None \<Rightarrow> [] | Some as \<Rightarrow> as) = []
       \<and> filter isVoiceNoteAttachment (case atts of None \<Rightarrow> [] | Some as \<Rightarrow> as) = [])" by blast
  obtain vs ids st1 w1 where loop:
    "persistVoiceNotes host (filter isVoiceNoteAttachment (case atts of None \<Rightarrow> [] | Some as \<Rightarrow> as))
        Map.empty (snd (Date_now w)) = ((vs, ids, st1), w1)"
    by (metis prod.exhaust)
  from persistVoiceNotes_frame [OF loop] have q: "chatQueue st1 = chatQueue host"
    by (rule sameButLists_chatQueue)
  from assms h loop q show ?thesis
    by (auto simp: sendChatMessage_def Let_def request_def nextUUID_def Date_now_def
        split: sum.splits prod.splits if_splits)
qed

text \<open>
  \<open>flushChatQueue\<close> and \<open>sendChatMessageNow\<close>. \<open>sendChatMessageNow\<close> is given in two
  parts: the call of \<open>sendChatMessage\<close> it waits for, and \<open>sendChatMessageResumed\<close>, the
  code that runs when the call has returned the run id \<open>runId\<close>, on the host as it is
  then. \<open>resetToolStream\<close>, \<open>setLastActiveSessionKey\<close> and \<open>scheduleChatScroll\<close> are not
  part of the sources at hand and write no field of \<open>ChatHost\<close>; they are left out. The
  flush that \<open>sendChatMessageNow\<close> starts is not awaited there: the model runs it to its
  end before going on, the one step that follows it (\<open>refreshSessionsAfterChat.add\<close>)
  being independent of it. The boolean result is \<open>ok\<close>; with it come the attachments
  as the send left them.
\<close>

function flushChatQueue :: "ChatHost \<Rightarrow> world \<Rightarrow> ChatHost \<times> world"
  and sendChatMessageNow ::
    "ChatHost \<Rightarrow> string \<Rightarrow> SendOpts \<Rightarrow> world \<Rightarrow> (bool \<times> ChatAttachment list) \<times> ChatHost \<times> world"
  and sendChatMessageResumed ::
    "ChatHost \<Rightarrow> string option \<Rightarrow> ChatAttachment list \<Rightarrow> SendOpts \<Rightarrow> world
       \<Rightarrow> (bool \<times> ChatAttachment list) \<times> ChatHost \<times> world" where
  "flushChatQueue host w =
     (if connected host then
        if isChatBusy host then (host, w)
        else
          (case chatQueue host of
             [] \<Rightarrow> (host, w)
           | next # rest \<Rightarrow>
               (case sendChatMessageNow (host\<lparr>chatQueue := rest\<rparr>) (itemText next)
                       \<lparr>optPreviousDraft = None, optRestoreDraft = False,
                        optAttachments = itemAttachments next,
                        optPreviousAttachments = None, optRestoreAttachments = False,
                        optRefreshSessions = (itemRefreshSessions next = Some True)\<rparr> w of
                  ((ok, written), host1, w1) \<Rightarrow>
                    if ok then (host1, w1)
                    else
                      (host1\<lparr>chatQueue :=
                                next\<lparr>itemAttachments :=
                                       map_option (\<lambda>as. written) (itemAttachments next)\<rparr>
                                # chatQueue host1\<rparr>, w1)))
      else (host, w))"
| "sendChatMessageNow host message opts w =
     (case sendChatMessage host message (optAttachments opts) w of
        ((runId, written, host1), w1) \<Rightarrow> sendChatMessageResumed host1 runId written opts w1)"
| "sendChatMessageResumed host runId written opts w =
     (let ok = truthyStr runId;
          previousAttachments = previousAttachmentsRead opts written;
          host1 = (if ok then host
                   else (case optPreviousDraft opts of
                           None \<Rightarrow> host
                         | Some d \<Rightarrow> host\<lparr>chatMessage := d\<rparr>));
          host2 = (if ok then host1
                   else (case previousAttachments of
                           None \<Rightarrow> host1
                         | Some as \<Rightarrow> host1\<lparr>chatAttachments := as\<rparr>));
          host3 = (if ok \<and> optRestoreDraft opts then
                     (case optPreviousDraft opts of
                        None \<Rightarrow> host2
                      | Some d \<Rightarrow> if trim d \<noteq> [] then host2\<lparr>chatMessage := d\<rparr> else host2)
                   else host2);
          host4 = (if ok \<and> optRestoreAttachments opts then
                     (case previousAttachments of
                        None \<Rightarrow> host3
                      | Some as \<Rightarrow> if as \<noteq> [] then host3\<lparr>chatAttachments := as\<rparr> else host3)
                   else host3);
          w1 = syncChatComposerLocalState host4 w
      in case (if ok then
                 if truthyStr (chatRunId host4) then (host4, w1)
                 else flushChatQueue host4 w1
               else (host4, w1)) of
           (host5, w2) \<Rightarrow>
             ((ok, written),
              (if ok \<and> optRefreshSessions opts then
                 (case runId of
                    None \<Rightarrow> host5
                  | Some r \<Rightarrow> host5\<lparr>refreshSessionsAfterChat :=
                                        insert r (refreshSessionsAfterChat host5)\<rparr>)
               else host5),
              w2))"
  by pat_completeness auto
termination
proof (relation "measure (\<lambda>x. case x of
        Inl (host, w) \<Rightarrow> 3 * length (chatQueue host)
      | Inr (Inl (host, m, opts, w)) \<Rightarrow> 3 * length (chatQueue host) + 2
      | Inr (Inr (host, r, wr, opts, w)) \<Rightarrow> 3 * length (chatQueue host) + 1)", goal_cases)
  case 1
  show ?case by simp
next
  case (2 host w nxt rest)
  then show ?case by simp
next
  case (3 host message opts w x y xa ya xb yb)
  then have "sendChatMessage host message (optAttachments opts) w = ((xa, xb, yb), y)"
    by simp
  then have "chatQueue yb = chatQueue host" by (rule sendChatMessage_chatQueue)
  then show ?case by simp
next
  case 4
  then show ?case by (auto split: option.splits)
qed

text \<open>
  \<open>handleSendChat(host, messageOverride, opts)\<close>; \<open>restoreDraft\<close> is
  \<open>opts?.restoreDraft\<close>, \<open>False\<close> when absent.
\<close>

definition handleSendChat :: "ChatHost \<Rightarrow> string option \<Rightarrow> bool \<Rightarrow> world \<Rightarrow> ChatHost \<times> world" where
  "handleSendChat host messageOverride restoreDraft w =
     (if connected host then
        let previousDraft = chatMessage host;
            message = trim (case messageOverride of None \<Rightarrow> chatMessage host | Some m \<Rightarrow> m);
            attachments' = chatAttachments host;
            attachmentsToSend = (if messageOverride = None then attachments' else []);
            hasAttachments = (attachmentsToSend \<noteq> [])
        in if message = [] \<and> \<not> hasAttachments then (host, w)
           else if isChatStopCommand message then handleAbortChat host w
           else
             let refreshSessions = isChatResetCommand message;
                 host1 = (if messageOverride = None
                          then host\<lparr>chatMessage := [], chatAttachments := []\<rparr> else host);
                 w1 = (if messageOverride = None
                       then syncChatComposerLocalState host1 w else w)
             in if isChatBusy host1
                then enqueueChatMessage host1 message (Some attachmentsToSend)
                       (Some refreshSessions) w1
                else
                  (case sendChatMessageNow host1 message
                          \<lparr>optPreviousDraft =
                             (if messageOverride = None then Some previousDraft else None),
                           optRestoreDraft = (truthyStr messageOverride \<and> restoreDraft),
                           optAttachments =
                             (if hasAttachments then Some attachmentsToSend else None),
                           optPreviousAttachments =
                             (if messageOverride = None then Some attachments' else None),
                           optRestoreAttachments = (truthyStr messageOverride \<and> restoreDraft),
                           optRefreshSessions = refreshSessions\<rparr> w1 of
                     (ok, host2, w2) \<Rightarrow> (host2, w2))
      else (host, w))"

section \<open>Properties of persisting and sending\<close>

subsection \<open>Trimming twice\<close>

lemma trim_no_leading: "trim s \<noteq> [] \<Longrightarrow> \<not> is_ws (hd (trim s))"
proof -
  assume ne: "trim s \<noteq> []"
  let ?t = "dropWhile is_ws s"
  have "rev ?t = takeWhile is_ws (rev ?t) @ dropWhile is_ws (rev ?t)" by simp
  then have t: "?t = trim s @ rev (takeWhile is_ws (rev ?t))"
    by (metis rev_append rev_rev_ident trim_def)
  with ne have "hd ?t = hd (trim s)" by (metis hd_append2)
  moreover have "?t \<noteq> []" using t ne by (metis append_is_Nil_conv)
  ultimately show ?thesis using hd_dropWhile [of is_ws s] by metis
qed

lemma trim_no_trailing: "trim s \<noteq> [] \<Longrightarrow> \<not> is_ws (hd (rev (trim s)))"
  unfolding trim_def using hd_dropWhile [of is_ws "rev (dropWhile is_ws s)"] by simp

lemma trim_trim: "trim (trim s) = trim s"
proof (cases "trim s = []")
  case True
  have "trim [] = []" by (simp add: trim_def)
  with True show ?thesis by simp
next
  case False
  have 1: "dropWhile is_ws (trim s) = trim s"
    using trim_no_leading [OF False] by (simp add: dropWhile_eq_self_iff)
  have 2: "dropWhile is_ws (rev (trim s)) = rev (trim s)"
    using trim_no_trailing [OF False] by (simp add: dropWhile_eq_self_iff)
  show ?thesis
    using 1 2 by (metis rev_rev_ident trim_def)
qed

subsection \<open>A send that does nothing\<close>

text \<open>A client whose every request resolves, a save with the note id given.\<close>

definition resolvingClient :: "string \<Rightarrow> GatewayBrowserClient" where
  "resolvingClient noteId' =
     \<lparr>respond = (\<lambda>n r. case r of VoiceNotesSave p \<Rightarrow> Inr (Some noteId') | _ \<Rightarrow> Inr None)\<rparr>"

text \<open>
  C10. \<open>sendChatMessage\<close> with a message that trims to the empty string and no
  attachments (absent or an empty array) returns null, issues no request and leaves the
  state and everything outside it as they were; so it does whenever the client is null
  or not connected, whatever the message and the attachments.
\<close>

theorem C10_send_nothing:
  assumes "(trim message = [] \<and> (attachmentsOpt = None \<or> attachmentsOpt = Some []))
           \<or> client st = None \<or> \<not> connected st"
  shows "sendChatMessage st message attachmentsOpt w =
           ((None, (case attachmentsOpt of None \<Rightarrow> [] | Some as \<Rightarrow> as), st), w)"
  using assms by (auto simp: sendChatMessage_def split: option.splits)

theorem C10_send_nothing_witness:
  "sendChatMessage (createState\<lparr>client := Some (resolvingClient ''n'')\<rparr>) ''   '' (Some []) freshWorld
     = ((None, [], createState\<lparr>client := Some (resolvingClient ''n'')\<rparr>), freshWorld)
   \<and> sendChatMessage createState ''hello'' None freshWorld = ((None, [], createState), freshWorld)"
  using C10_send_nothing [of "''   ''" "Some []" "createState\<lparr>client := Some (resolvingClient ''n'')\<rparr>" freshWorld]
    C10_send_nothing [of "''hello''" None createState freshWorld]
  by (simp add: trim_def is_ws_def createState_def)


subsection \<open>Persisting a voice note that is persisted\<close>

lemma persistVoiceNoteAttachment_client:
  assumes "persistVoiceNoteAttachment st a w = ((r, a', st'), w')"
  shows "client st' = client st \<and> connected st' = connected st"
  using persistVoiceNoteAttachment_frame [OF assms] unfolding sameButLists_def by auto

text \<open>
  C7, as amended. An attachment whose \<open>persistedNoteId\<close> has non-white-space content
  is not saved again: \<open>persistVoiceNoteAttachment\<close> issues no request and changes
  nothing, and returns the id trimmed when the client is present and connected, null
  otherwise. And a persist that returned an id, repeated on the attachment and the state
  it left, issues no further request and returns the same id.
\<close>

theorem C7_persist_known_id:
  "(persistedNoteId a = Some p \<and> trim p \<noteq> [] \<longrightarrow>
      persistVoiceNoteAttachment st a w =
        ((if client st \<noteq> None \<and> connected st then Inr (Some (trim p)) else Inr None, a, st), w))
   \<and> (persistVoiceNoteAttachment st a w = ((Inr (Some pid), a', st'), w') \<longrightarrow>
      persistVoiceNoteAttachment st' a' w' = ((Inr (Some pid), a', st'), w'))"
proof (intro conjI impI)
  assume "persistedNoteId a = Some p \<and> trim p \<noteq> []"
  then show "persistVoiceNoteAttachment st a w =
        ((if client st \<noteq> None \<and> connected st then Inr (Some (trim p)) else Inr None, a, st), w)"
    by (auto simp: persistVoiceNoteAttachment_def split: option.splits)
next
  assume first: "persistVoiceNoteAttachment st a w = ((Inr (Some pid), a', st'), w')"
  from persistVoiceNoteAttachment_client [OF first]
  have same: "client st' = client st" "connected st' = connected st" by simp_all
  from first obtain c where c: "client st = Some c" "connected st"
    by (auto simp: persistVoiceNoteAttachment_def split: option.splits if_splits)
  have known: "(case persistedNoteId a' of None \<Rightarrow> [] | Some p \<Rightarrow> trim p) = pid \<and> pid \<noteq> []"
  proof (cases "(case persistedNoteId a of None \<Rightarrow> [] | Some p \<Rightarrow> trim p) = []")
    case False
    with first c show ?thesis
      by (auto simp: persistVoiceNoteAttachment_def trim_trim split: option.splits)
  next
    case True
    with first c show ?thesis
      by (auto simp: persistVoiceNoteAttachment_def Let_def trim_trim
          split: option.splits sum.splits prod.splits if_splits)
  qed
  with same c show "persistVoiceNoteAttachment st' a' w' = ((Inr (Some pid), a', st'), w')"
    by (simp add: persistVoiceNoteAttachment_def)
qed

lemmas store_defs = updateLocalSessionState_def readLocalChatStateStore_def
  writeLocalChatStateStore_def readLocalSessionState_def emptySession_def
  LOCAL_CHAT_STATE_VERSION_def

lemmas string_defs = trim_def is_ws_def startsWith_def filterBoolean_def toLowerCase_def
  lower_char_def upper_chars_def lower_chars_def

lemmas attachment_defs = dataUrlToBase64_def isVoiceNoteAttachment_def normalizeTranscript_def
  splitTranscriptParts_def trimmedOrUndefined_def toStoredChatAttachment_def

text \<open>The voice note of the repository's tests, not yet persisted, and a persisted one.\<close>

definition memoNote :: ChatAttachment where
  "memoNote = \<lparr>attId = ''voice-1'', kind = Some VoiceNote,
     dataUrl = ''data:audio/ogg;base64,dm9pY2U='', mimeType = ''audio/ogg'',
     fileName = Some ''memo.ogg'', source = Some Record, durationMs = Some 1840,
     transcript = None, transcriptParts = Some ['' hello '', [], ''second line ''],
     persistedNoteId = None, previewUrl = None\<rparr>"

definition persistedNote :: ChatAttachment where
  "persistedNote = \<lparr>attId = ''voice-persisted'', kind = Some VoiceNote,
     dataUrl = ''data:audio/ogg;base64,dm9pY2UtcGVyc2lzdGVk'', mimeType = ''audio/ogg'',
     fileName = Some ''persisted.ogg'', source = Some Record, durationMs = None,
     transcript = None, transcriptParts = None,
     persistedNoteId = Some ''note-abc'', previewUrl = None\<rparr>"

definition connectedState :: "GatewayBrowserClient \<Rightarrow> ChatState" where
  "connectedState c = createState\<lparr>client := Some c\<rparr>"

lemma memoNote_first_persist:
  "fst (fst (persistVoiceNoteAttachment (connectedState (resolvingClient ''voice-note-123''))
       memoNote freshWorld)) = Inr (Some ''voice-note-123'')"
  by (simp add: persistVoiceNoteAttachment_def connectedState_def createState_def
      resolvingClient_def memoNote_def request_def string_defs attachment_defs
      updateLocalVoiceNotePersistence_def Let_def split: prod.splits)

theorem C7_persist_known_id_witness:
  "persistVoiceNoteAttachment (connectedState (resolvingClient ''x'')) persistedNote freshWorld
     = ((Inr (Some ''note-abc''), persistedNote, connectedState (resolvingClient ''x'')), freshWorld)
   \<and> persistVoiceNoteAttachment
       (snd (snd (fst (persistVoiceNoteAttachment
          (connectedState (resolvingClient ''voice-note-123'')) memoNote freshWorld))))
       (fst (snd (fst (persistVoiceNoteAttachment
          (connectedState (resolvingClient ''voice-note-123'')) memoNote freshWorld))))
       (snd (persistVoiceNoteAttachment
          (connectedState (resolvingClient ''voice-note-123'')) memoNote freshWorld))
     = persistVoiceNoteAttachment
          (connectedState (resolvingClient ''voice-note-123'')) memoNote freshWorld"
proof -
  let ?r = "persistVoiceNoteAttachment
          (connectedState (resolvingClient ''voice-note-123'')) memoNote freshWorld"
  have r: "?r = ((Inr (Some ''voice-note-123''), fst (snd (fst ?r)), snd (snd (fst ?r))), snd ?r)"
    using memoNote_first_persist by (metis prod.collapse)
  have a: "persistVoiceNoteAttachment (connectedState (resolvingClient ''x'')) persistedNote freshWorld
     = ((Inr (Some ''note-abc''), persistedNote, connectedState (resolvingClient ''x'')), freshWorld)"
    using C7_persist_known_id [of persistedNote "''note-abc''" "connectedState (resolvingClient ''x'')" freshWorld]
    by (simp add: persistedNote_def connectedState_def createState_def trim_def is_ws_def)
  have b: "persistVoiceNoteAttachment (snd (snd (fst ?r))) (fst (snd (fst ?r))) (snd ?r) = ?r"
    using C7_persist_known_id [of memoNote p "connectedState (resolvingClient ''voice-note-123'')"
        freshWorld "''voice-note-123''" "fst (snd (fst ?r))" "snd (snd (fst ?r))" "snd ?r"] r
    by metis
  from a b show ?thesis by simp
qed

text \<open>
  C7 as stated fails twice. With no client the persisted note of the tests gets null, not
  its id \<open>note-abc\<close>; and a note whose id is the non-empty string of one space is
  saved again by a connected client.
\<close>

theorem C7_counterexample:
  "persistedNoteId persistedNote = Some ''note-abc''
   \<and> fst (fst (persistVoiceNoteAttachment createState persistedNote freshWorld)) = Inr None
   \<and> persistedNoteId (persistedNote\<lparr>persistedNoteId := Some '' ''\<rparr>) = Some '' ''
   \<and> length (requests (snd (persistVoiceNoteAttachment (connectedState (resolvingClient ''x''))
         (persistedNote\<lparr>persistedNoteId := Some '' ''\<rparr>) freshWorld))) = 1"
  by (simp add: persistVoiceNoteAttachment_def connectedState_def createState_def
      resolvingClient_def persistedNote_def request_def string_defs attachment_defs store_defs
      updateLocalVoiceNotePersistence_def Let_def freshWorld_def
      split: prod.splits)

subsection \<open>A send whose saves reject\<close>

text \<open>The id an attachment is known to be persisted under, empty when there is none.\<close>

definition knownNoteId :: "ChatAttachment \<Rightarrow> string" where
  "knownNoteId a = (case persistedNoteId a of None \<Rightarrow> [] | Some p \<Rightarrow> trim p)"

definition persistWarning :: "string \<Rightarrow> string" where
  "persistWarning e = ''[control-ui] voice note persist failed: '' @ e"

text \<open>The world after \<open>k\<close> more requests \<open>rs\<close>, each of them rejected with \<open>e\<close> and warned of.\<close>

definition afterRejected :: "world \<Rightarrow> request list \<Rightarrow> string \<Rightarrow> world" where
  "afterRejected w rs e =
     w\<lparr>requests := requests w @ rs,
       warnings := warnings w @ replicate (length rs) (persistWarning e)\<rparr>"

lemma afterRejected_Nil: "afterRejected w [] e = w"
  by (simp add: afterRejected_def)

lemma afterRejected_append:
  "afterRejected (afterRejected w rs e) rs' e = afterRejected w (rs @ rs') e"
  by (simp add: afterRejected_def replicate_add)

lemma persistOrWarn_rejected:
  assumes "client st = Some c" and "connected st" and "knownNoteId a = []"
    and "\<forall>n p. respond c n (VoiceNotesSave p) = Inl e"
  shows "\<exists>rs. persistOrWarn st a ids w = ((a, ids, st), afterRejected w rs e)
           \<and> length rs = (if dataUrlToBase64 (dataUrl a) = None then 0 else 1)"
proof (cases "dataUrlToBase64 (dataUrl a)")
  case None
  with assms have "persistOrWarn st a ids w = ((a, ids, st), afterRejected w [] e)"
    by (simp add: persistOrWarn_def persistVoiceNoteAttachment_def knownNoteId_def
        afterRejected_Nil)
  with None show ?thesis by (intro exI [of _ "[]"]) simp
next
  case (Some cm)
  obtain content mime where cm: "cm = (content, mime)" by (cases cm)
  let ?r = "VoiceNotesSave
              \<lparr>save_sessionKey = sessionKey st,
               save_source = (case source a of None \<Rightarrow> Upload | Some s \<Rightarrow> s),
               save_durationMs = durationMs a,
               save_transcript = (if normalizeTranscript a = [] then None
                                  else Some (normalizeTranscript a)),
               save_transcriptParts = (if normalizeTranscript a = [] then None
                                       else Some (splitTranscriptParts (normalizeTranscript a))),
               audio_mimeType = (if mime \<noteq> [] then mime else mimeType a),
               audio_fileName = fileName a,
               audio_content = content\<rparr>"
  from assms Some cm
  have "persistOrWarn st a ids w = ((a, ids, st), afterRejected w [?r] e)"
    by (simp add: persistOrWarn_def persistVoiceNoteAttachment_def knownNoteId_def Let_def
        request_def console_warn_def afterRejected_def persistWarning_def)
  with Some show ?thesis by (intro exI [of _ "[?r]"]) simp
qed

lemma persistVoiceNotes_rejected:
  assumes "client st = Some c" and "connected st"
    and "\<forall>n p. respond c n (VoiceNotesSave p) = Inl e"
  shows "\<forall>a \<in> set vs. knownNoteId a = [] \<Longrightarrow>
         \<exists>rs. persistVoiceNotes st vs ids w = ((vs, ids, st), afterRejected w rs e)
           \<and> length rs = length (filter (\<lambda>a. dataUrlToBase64 (dataUrl a) \<noteq> None) vs)"
proof (induction vs arbitrary: w)
  case Nil
  show ?case by (intro exI [of _ "[]"]) (simp add: afterRejected_Nil)
next
  case (Cons a vs)
  from Cons.prems have a: "knownNoteId a = []" and vs: "\<forall>a \<in> set vs. knownNoteId a = []"
    by simp_all
  from persistOrWarn_rejected [OF assms(1,2) a assms(3), of ids w]
  obtain rs1 where one: "persistOrWarn st a ids w = ((a, ids, st), afterRejected w rs1 e)"
    and l1: "length rs1 = (if dataUrlToBase64 (dataUrl a) = None then 0 else 1)" by blast
  from Cons.IH [OF vs, of "afterRejected w rs1 e"]
  obtain rs2 where rest:
    "persistVoiceNotes st vs ids (afterRejected w rs1 e) =
       ((vs, ids, st), afterRejected (afterRejected w rs1 e) rs2 e)"
    and l2: "length rs2 = length (filter (\<lambda>a. dataUrlToBase64 (dataUrl a) \<noteq> None) vs)"
    by blast
  have "persistVoiceNotes st (a # vs) ids w = ((a # vs, ids, st), afterRejected w (rs1 @ rs2) e)"
    using one rest by (simp add: afterRejected_append)
  moreover have "length (rs1 @ rs2) =
      length (filter (\<lambda>a. dataUrlToBase64 (dataUrl a) \<noteq> None) (a # vs))"
    using l1 l2 by simp
  ultimately show ?case by blast
qed

lemma writtenAttachments_same:
  "writtenAttachments as (filter isVoiceNoteAttachment as) = as"
  by (induction as) auto


lemma objSet_map_fst:
  "map fst (objSet kvs k v) = (if k \<in> set (map fst kvs) then map fst kvs else map fst kvs @ [k])"
  by (induction kvs) (force simp: image_iff)+

lemma objSet_keys: "fst ` set (objSet kvs k v) = insert k (fst ` set kvs)"
proof -
  have "set (map fst (objSet kvs k v)) = insert k (set (map fst kvs))"
    by (auto simp: objSet_map_fst)
  then show ?thesis by simp
qed

lemma buildVoiceNoteContentBlock_persistedNoteId:
  "hasKey (buildVoiceNoteContentBlock a None incl) ''persistedNoteId'' \<longleftrightarrow> knownNoteId a \<noteq> []"
  by (auto simp: buildVoiceNoteContentBlock_def Let_def objSet_keys knownNoteId_def
      split: option.splits)

lemma plainBlocks_persistedNoteId:
  "\<not> hasKey (textBlock t) ''persistedNoteId''" "\<not> hasKey (imageBlock a) ''persistedNoteId''"
  by (simp_all add: textBlock_def imageBlock_def)

text \<open>The content blocks \<open>sendChatMessage\<close> builds when no voice note got a persisted id.\<close>

definition unpersistedBlocks :: "jv list \<Rightarrow> string \<Rightarrow> ChatAttachment list \<Rightarrow> jv list" where
  "unpersistedBlocks messages msg atts =
     (if msg \<noteq> [] then [textBlock msg] else [])
     @ map imageBlock (filter (\<lambda>a. \<not> isVoiceNoteAttachment a) atts)
     @ map (\<lambda>att. buildVoiceNoteContentBlock att None True)
         (filter (\<lambda>att. \<not> hasLocalVoiceNoteMessage messages (attId att))
            (filter isVoiceNoteAttachment atts))"

text \<open>The message \<open>sendChatMessage\<close> sends for a text and its attachments.\<close>

definition outboundMessage :: "string \<Rightarrow> ChatAttachment list \<Rightarrow> string" where
  "outboundMessage message atts =
     join [CHR 0x0A, CHR 0x0A]
       (filterBoolean [trim message,
                       buildVoiceNotePromptText (filter isVoiceNoteAttachment atts)])"

lemma sendChatMessage_saves_rejected:
  assumes c: "client st = Some c" and conn: "connected st"
    and unknown: "\<forall>a \<in> set atts. isVoiceNoteAttachment a \<longrightarrow> knownNoteId a = []"
    and voice: "filter isVoiceNoteAttachment atts \<noteq> []"
    and rejects: "\<forall>n p. respond c n (VoiceNotesSave p) = Inl e"
    and resolves: "\<forall>n p. respond c n (ChatSend p) = Inr r"
  shows "\<exists>rs. length rs = length (filter (\<lambda>a. dataUrlToBase64 (dataUrl a) \<noteq> None)
                                   (filter isVoiceNoteAttachment atts))
     \<and> sendChatMessage st message (Some atts) w =
       ((Some (generateUUID w (uuidCalls w)), atts,
         st\<lparr>chatMessages :=
              chatMessages st @
                (if unpersistedBlocks (chatMessages st) (trim message) atts = [] then []
                 else [userMessage (unpersistedBlocks (chatMessages st) (trim message) atts)
                         (dateNow w (dateNowCalls w))]),
            chatSending := False, lastError := None,
            chatRunId := Some (generateUUID w (uuidCalls w)), chatStream := Some [],
            chatStreamStartedAt := Some (dateNow w (dateNowCalls w))\<rparr>),
        w\<lparr>dateNowCalls := Suc (dateNowCalls w), uuidCalls := Suc (uuidCalls w),
          requests := requests w @ rs @
            [ChatSend \<lparr>send_sessionKey = sessionKey st,
                       send_message = outboundMessage message atts,
                       send_deliver = False,
                       send_idempotencyKey = generateUUID w (uuidCalls w),
                       send_attachments =
                         (if filter (\<lambda>a. \<not> isVoiceNoteAttachment a) atts \<noteq> []
                          then Some (List.map_filter toApiAttachment
                                       (filter (\<lambda>a. \<not> isVoiceNoteAttachment a) atts))
                          else None)\<rparr>],
          warnings := warnings w @ replicate (length rs) (persistWarning e)\<rparr>)"
proof -
  let ?w0 = "w\<lparr>dateNowCalls := Suc (dateNowCalls w)\<rparr>"
  have "\<forall>a \<in> set (filter isVoiceNoteAttachment atts). knownNoteId a = []"
    using unknown by simp
  from persistVoiceNotes_rejected [OF c conn rejects this, of Map.empty ?w0]
  obtain rs where loop:
    "persistVoiceNotes st (filter isVoiceNoteAttachment atts) Map.empty ?w0 =
       ((filter isVoiceNoteAttachment atts, Map.empty, st), afterRejected ?w0 rs e)"
    and len: "length rs = length (filter (\<lambda>a. dataUrlToBase64 (dataUrl a) \<noteq> None)
                                   (filter isVoiceNoteAttachment atts))"
    by blast
  have "sendChatMessage st message (Some atts) w = ((Some (generateUUID w (uuidCalls w)), atts,
         st\<lparr>chatMessages :=
              chatMessages st @
                (if unpersistedBlocks (chatMessages st) (trim message) atts = [] then []
                 else [userMessage (unpersistedBlocks (chatMessages st) (trim message) atts)
                         (dateNow w (dateNowCalls w))]),
            chatSending := False, lastError := None,
            chatRunId := Some (generateUUID w (uuidCalls w)), chatStream := Some [],
            chatStreamStartedAt := Some (dateNow w (dateNowCalls w))\<rparr>),
        w\<lparr>dateNowCalls := Suc (dateNowCalls w), uuidCalls := Suc (uuidCalls w),
          requests := requests w @ rs @
            [ChatSend \<lparr>send_sessionKey = sessionKey st,
                       send_message = outboundMessage message atts,
                       send_deliver = False,
                       send_idempotencyKey = generateUUID w (uuidCalls w),
                       send_attachments =
                         (if filter (\<lambda>a. \<not> isVoiceNoteAttachment a) atts \<noteq> []
                          then Some (List.map_filter toApiAttachment
                                       (filter (\<lambda>a. \<not> isVoiceNoteAttachment a) atts))
                          else None)\<rparr>],
          warnings := warnings w @ replicate (length rs) (persistWarning e)\<rparr>)"
    using c conn voice resolves loop
    by (simp add: sendChatMessage_def Let_def Date_now_def nextUUID_def request_def
        afterRejected_def unpersistedBlocks_def outboundMessage_def writtenAttachments_same)
  with len show ?thesis by blast
qed


lemma unpersistedBlocks_no_persistedNoteId:
  assumes "\<forall>a \<in> set atts. isVoiceNoteAttachment a \<longrightarrow> knownNoteId a = []"
  shows "\<forall>b \<in> set (unpersistedBlocks messages msg atts). \<not> hasKey b ''persistedNoteId''"
  using assms
  by (auto simp: unpersistedBlocks_def plainBlocks_persistedNoteId
      buildVoiceNoteContentBlock_persistedNoteId)

text \<open>
  C8. A send with voice notes none of which has a persisted id, every save request
  rejecting with \<open>e\<close> (at least one is issued: some voice note has a well-formed data
  URL) and the chat.send request resolving: the run id is returned, the last request
  issued is the chat.send with the outbound message and the run id as idempotency key, the
  console has the warning for \<open>e\<close>, the attachments carry no persisted id afterwards,
  and the user message appended to the history holds the content blocks
  \<open>unpersistedBlocks\<close>, none of which has a \<open>persistedNoteId\<close>.
\<close>

theorem C8_send_completes_when_save_rejects:
  assumes "client st = Some c" and "connected st"
    and "\<forall>a \<in> set atts. isVoiceNoteAttachment a \<longrightarrow> knownNoteId a = []"
    and "\<exists>a \<in> set atts. isVoiceNoteAttachment a \<and> dataUrlToBase64 (dataUrl a) \<noteq> None"
    and "\<forall>n p. respond c n (VoiceNotesSave p) = Inl e"
    and "\<forall>n p. respond c n (ChatSend p) = Inr r"
  shows "(let R = sendChatMessage st message (Some atts) w;
              runId = generateUUID w (uuidCalls w);
              blocks = unpersistedBlocks (chatMessages st) (trim message) atts
          in fst (fst R) = Some runId
             \<and> fst (snd (fst R)) = atts
             \<and> (\<exists>p. last (requests (snd R)) = ChatSend p
                     \<and> send_message p = outboundMessage message atts
                     \<and> send_idempotencyKey p = runId)
             \<and> persistWarning e \<in> set (warnings (snd R))
             \<and> chatMessages (snd (snd (fst R))) =
                   chatMessages st @
                     (if blocks = [] then []
                      else [userMessage blocks (dateNow w (dateNowCalls w))])
             \<and> (\<forall>b \<in> set blocks. \<not> hasKey b ''persistedNoteId'')
             \<and> chatRunId (snd (snd (fst R))) = Some runId
             \<and> \<not> chatSending (snd (snd (fst R))))"
proof -
  from assms(4) have voice: "filter isVoiceNoteAttachment atts \<noteq> []"
    by (auto simp: filter_empty_conv)
  from assms(4) have some:
    "filter (\<lambda>a. dataUrlToBase64 (dataUrl a) \<noteq> None) (filter isVoiceNoteAttachment atts) \<noteq> []"
    by (auto simp: filter_empty_conv)
  from sendChatMessage_saves_rejected [OF assms(1,2,3) voice assms(5,6), of message w]
  obtain rs where len: "length rs = length (filter (\<lambda>a. dataUrlToBase64 (dataUrl a) \<noteq> None)
                                   (filter isVoiceNoteAttachment atts))"
    and R: "sendChatMessage st message (Some atts) w =
       ((Some (generateUUID w (uuidCalls w)), atts,
         st\<lparr>chatMessages :=
              chatMessages st @
                (if unpersistedBlocks (chatMessages st) (trim message) atts = [] then []
                 else [userMessage (unpersistedBlocks (chatMessages st) (trim message) atts)
                         (dateNow w (dateNowCalls w))]),
            chatSending := False, lastError := None,
            chatRunId := Some (generateUUID w (uuidCalls w)), chatStream := Some [],
            chatStreamStartedAt := Some (dateNow w (dateNowCalls w))\<rparr>),
        w\<lparr>dateNowCalls := Suc (dateNowCalls w), uuidCalls := Suc (uuidCalls w),
          requests := requests w @ rs @
            [ChatSend \<lparr>send_sessionKey = sessionKey st,
                       send_message = outboundMessage message atts,
                       send_deliver = False,
                       send_idempotencyKey = generateUUID w (uuidCalls w),
                       send_attachments =
                         (if filter (\<lambda>a. \<not> isVoiceNoteAttachment a) atts \<noteq> []
                          then Some (List.map_filter toApiAttachment
                                       (filter (\<lambda>a. \<not> isVoiceNoteAttachment a) atts))
                          else None)\<rparr>],
          warnings := warnings w @ replicate (length rs) (persistWarning e)\<rparr>)"
    by blast
  from len some have "rs \<noteq> []" by auto
  then have warned: "persistWarning e \<in> set (replicate (length rs) (persistWarning e))"
    by simp
  show ?thesis
    unfolding Let_def R
    using warned unpersistedBlocks_no_persistedNoteId [OF assms(3)]
    by simp
qed

text \<open>The test \<open>continues sending when voice-note persistence fails\<close>.\<close>

definition failedNote :: ChatAttachment where
  "failedNote = \<lparr>attId = ''voice-2'', kind = Some VoiceNote,
     dataUrl = ''data:audio/ogg;base64,dm9pY2UtMg=='', mimeType = ''audio/ogg'',
     fileName = Some ''failed.ogg'', source = Some Upload, durationMs = None,
     transcript = Some ''test transcript'', transcriptParts = None,
     persistedNoteId = None, previewUrl = None\<rparr>"

definition saveRejectingClient :: GatewayBrowserClient where
  "saveRejectingClient =
     \<lparr>respond = (\<lambda>n r. case r of VoiceNotesSave p \<Rightarrow> Inl ''Error: persist failed''
                               | _ \<Rightarrow> Inr None)\<rparr>"

theorem C8_send_completes_witness:
  "fst (fst (sendChatMessage (connectedState saveRejectingClient) ''Use this note''
               (Some [failedNote]) freshWorld)) = Some ''run-a''
   \<and> ''[control-ui] voice note persist failed: Error: persist failed''
       \<in> set (warnings (snd (sendChatMessage (connectedState saveRejectingClient)
               ''Use this note'' (Some [failedNote]) freshWorld)))
   \<and> fst (snd (fst (sendChatMessage (connectedState saveRejectingClient) ''Use this note''
               (Some [failedNote]) freshWorld))) = [failedNote]"
  using C8_send_completes_when_save_rejects [of "connectedState saveRejectingClient"
      saveRejectingClient "[failedNote]" "''Error: persist failed''" None
      "''Use this note''" freshWorld]
  by (simp add: connectedState_def createState_def saveRejectingClient_def failedNote_def
      isVoiceNoteAttachment_def knownNoteId_def dataUrlToBase64_def startsWith_def
      persistWarning_def freshWorld_def Let_def)

subsection \<open>A send whose chat.send request rejects\<close>

declare flushChatQueue.simps [simp del] sendChatMessageNow.simps [simp del]
  sendChatMessageResumed.simps [simp del]

text \<open>An attachment with its persisted id left out: what a save never changes.\<close>

definition withoutPersistedId :: "ChatAttachment \<Rightarrow> ChatAttachment" where
  "withoutPersistedId a = a\<lparr>persistedNoteId := None\<rparr>"

lemma isVoiceNoteAttachment_withoutPersistedId:
  "withoutPersistedId a = withoutPersistedId b \<Longrightarrow> isVoiceNoteAttachment a = isVoiceNoteAttachment b"
proof -
  assume "withoutPersistedId a = withoutPersistedId b"
  then have "kind (withoutPersistedId a) = kind (withoutPersistedId b)"
    "mimeType (withoutPersistedId a) = mimeType (withoutPersistedId b)" by simp_all
  then show ?thesis by (simp add: withoutPersistedId_def isVoiceNoteAttachment_def)
qed

lemma updateLocalVoiceNotePersistence_length:
  "updateLocalVoiceNotePersistence st i p w = (st', w') \<Longrightarrow>
     length (chatMessages st') = length (chatMessages st)"
  unfolding updateLocalVoiceNotePersistence_def Let_def by auto

lemma persistVoiceNoteAttachment_written:
  assumes "persistVoiceNoteAttachment st a w = ((r, a', st'), w')"
  shows "withoutPersistedId a' = withoutPersistedId a
         \<and> length (chatMessages st') = length (chatMessages st)"
proof (cases "\<exists>c content mime. client st = Some c \<and> connected st
         \<and> (case persistedNoteId a of None \<Rightarrow> [] | Some p \<Rightarrow> trim p) = []
         \<and> dataUrlToBase64 (dataUrl a) = Some (content, mime)")
  case False
  with assms have "st' = st \<and> a' = a"
    by (auto simp: persistVoiceNoteAttachment_def Let_def split: option.splits if_splits)
  then show ?thesis by simp
next
  case True
  then obtain c content mime where h: "client st = Some c" "connected st"
     "(case persistedNoteId a of None \<Rightarrow> [] | Some p \<Rightarrow> trim p) = []"
     "dataUrlToBase64 (dataUrl a) = Some (content, mime)" by blast
  from assms h show ?thesis
    by (auto simp: persistVoiceNoteAttachment_def Let_def withoutPersistedId_def
        split: sum.splits prod.splits if_splits
        dest: updateLocalVoiceNotePersistence_length)
qed

lemma persistOrWarn_written:
  assumes "persistOrWarn st a ids w = ((a', ids', st'), w')"
  shows "withoutPersistedId a' = withoutPersistedId a
         \<and> length (chatMessages st') = length (chatMessages st)"
proof (cases "(case persistedNoteId a of None \<Rightarrow> [] | Some p \<Rightarrow> trim p) = []")
  case False
  with assms have "st' = st \<and> a' = a" by (auto simp: persistOrWarn_def Let_def)
  then show ?thesis by simp
next
  case True
  obtain r a1 st1 w1 where p: "persistVoiceNoteAttachment st a w = ((r, a1, st1), w1)"
    by (metis prod.exhaust)
  with assms True have "st' = st1 \<and> a' = a1"
    by (auto simp: persistOrWarn_def Let_def split: sum.splits option.splits)
  with persistVoiceNoteAttachment_written [OF p] show ?thesis by simp
qed

lemma persistVoiceNotes_written:
  "persistVoiceNotes st as ids w = ((as', ids', st'), w') \<Longrightarrow>
     map withoutPersistedId as' = map withoutPersistedId as
     \<and> length (chatMessages st') = length (chatMessages st)"
proof (induction as arbitrary: st ids w as' ids' st' w')
  case Nil
  then show ?case by simp
next
  case (Cons a as)
  obtain a1 ids1 st1 w1 where one: "persistOrWarn st a ids w = ((a1, ids1, st1), w1)"
    by (metis prod.exhaust)
  obtain as2 ids2 st2 w2 where rest: "persistVoiceNotes st1 as ids1 w1 = ((as2, ids2, st2), w2)"
    by (metis prod.exhaust)
  from Cons.prems one rest have "st' = st2 \<and> as' = a1 # as2" by simp
  with persistOrWarn_written [OF one] Cons.IH [OF rest] show ?case by simp
qed

lemma writtenAttachments_withoutPersistedId:
  "map withoutPersistedId vs = map withoutPersistedId (filter isVoiceNoteAttachment as) \<Longrightarrow>
     map withoutPersistedId (writtenAttachments as vs) = map withoutPersistedId as"
proof (induction as arbitrary: vs)
  case Nil
  show ?case by simp
next
  case (Cons a as)
  show ?case
  proof (cases "isVoiceNoteAttachment a")
    case False
    with Cons show ?thesis by simp
  next
    case True
    with Cons.prems obtain v vs' where vs: "vs = v # vs'" by (cases vs) auto
    with True Cons.prems have "withoutPersistedId v = withoutPersistedId a"
      and "map withoutPersistedId vs' = map withoutPersistedId (filter isVoiceNoteAttachment as)"
      by simp_all
    with Cons.IH [of vs'] True vs show ?thesis by simp
  qed
qed


lemma filter_both_empty: "filter P xs = [] \<and> filter (\<lambda>x. \<not> P x) xs = [] \<longleftrightarrow> xs = []"
  by (cases xs) auto

lemma sendChatMessage_send_rejected:
  assumes c: "client st = Some c" and conn: "connected st"
    and nonempty: "trim message \<noteq> [] \<or> (case attsOpt of None \<Rightarrow> [] | Some as \<Rightarrow> as) \<noteq> []"
    and rejects: "\<forall>n p. respond c n (ChatSend p) = Inl err"
  shows "\<exists>written atts' patched blocks t t' w'.
     sendChatMessage st message attsOpt w =
       ((None, written,
         st\<lparr>chatAttachments := atts',
            chatMessages := patched @ (if blocks = [] then [] else [userMessage blocks t])
                              @ [errorMessage err t'],
            chatSending := False, lastError := Some err, chatRunId := None,
            chatStream := None, chatStreamStartedAt := None\<rparr>), w')
     \<and> length patched = length (chatMessages st)
     \<and> map withoutPersistedId written =
         map withoutPersistedId (case attsOpt of None \<Rightarrow> [] | Some as \<Rightarrow> as)
     \<and> (trim message \<noteq> [] \<longrightarrow> blocks \<noteq> [] \<and> hd blocks = textBlock (trim message))"
proof -
  let ?all = "case attsOpt of None \<Rightarrow> [] | Some as \<Rightarrow> as"
  let ?w0 = "w\<lparr>dateNowCalls := Suc (dateNowCalls w)\<rparr>"
  obtain vs ids st1 w1 where loop:
    "persistVoiceNotes st (filter isVoiceNoteAttachment ?all) Map.empty ?w0 = ((vs, ids, st1), w1)"
    by (metis prod.exhaust)
  from persistVoiceNotes_frame [OF loop] obtain atts' patched
    where st1: "st1 = st\<lparr>chatAttachments := atts', chatMessages := patched\<rparr>"
    unfolding sameButLists_def by blast
  from persistVoiceNotes_written [OF loop]
  have vs: "map withoutPersistedId vs = map withoutPersistedId (filter isVoiceNoteAttachment ?all)"
    and len: "length (chatMessages st1) = length (chatMessages st)" by simp_all
  from len st1 have lenp: "length patched = length (chatMessages st)" by simp
  let ?blocks = "(if trim message \<noteq> [] then [textBlock (trim message)] else [])
                 @ map imageBlock (filter (\<lambda>a. \<not> isVoiceNoteAttachment a) ?all)
                 @ map (\<lambda>att. buildVoiceNoteContentBlock att (ids (attId att)) True)
                     (filter (\<lambda>att. \<not> hasLocalVoiceNoteMessage patched (attId att)) vs)"
  have go: "(trim message = [] \<and> filter (\<lambda>a. \<not> isVoiceNoteAttachment a) ?all = []
              \<and> filter isVoiceNoteAttachment ?all = []) = False"
    using nonempty filter_both_empty [of isVoiceNoteAttachment ?all] by blast
  have "sendChatMessage st message attsOpt w =
       ((None, writtenAttachments ?all vs,
         st\<lparr>chatAttachments := atts',
            chatMessages := patched
               @ (if ?blocks = [] then [] else [userMessage ?blocks (dateNow w (dateNowCalls w))])
               @ [errorMessage err (dateNow w1 (dateNowCalls w1))],
            chatSending := False, lastError := Some err, chatRunId := None,
            chatStream := None, chatStreamStartedAt := None\<rparr>),
        w1\<lparr>uuidCalls := Suc (uuidCalls w1),
           requests := requests w1 @
             [ChatSend \<lparr>send_sessionKey = sessionKey st,
                        send_message = join [CHR 0x0A, CHR 0x0A]
                          (filterBoolean [trim message,
                             buildVoiceNotePromptText (filter isVoiceNoteAttachment ?all)]),
                        send_deliver = False,
                        send_idempotencyKey = generateUUID w1 (uuidCalls w1),
                        send_attachments =
                          (if filter (\<lambda>a. \<not> isVoiceNoteAttachment a) ?all \<noteq> []
                           then Some (List.map_filter toApiAttachment
                                        (filter (\<lambda>a. \<not> isVoiceNoteAttachment a) ?all))
                           else None)\<rparr>],
           dateNowCalls := Suc (dateNowCalls w1)\<rparr>)"
    using c conn rejects loop st1
    by (simp add: sendChatMessage_def Let_def Date_now_def nextUUID_def request_def go)
  moreover have "map withoutPersistedId (writtenAttachments ?all vs) = map withoutPersistedId ?all"
    using vs by (rule writtenAttachments_withoutPersistedId)
  moreover have "trim message \<noteq> [] \<longrightarrow> ?blocks \<noteq> [] \<and> hd ?blocks = textBlock (trim message)"
    by simp
  ultimately show ?thesis using lenp by blast
qed


lemma isChatBusy_composer_cleared:
  "isChatBusy (host\<lparr>chatMessage := m, chatAttachments := as\<rparr>) = isChatBusy host"
  by (simp add: isChatBusy_def)

text \<open>
  C2, as amended. A send from the composer (\<open>handleSendChat\<close> with no override; the
  host connected with a client and not busy; a draft that is not blank, or attachments;
  not a stop command) whose chat.send request rejects with \<open>err\<close>: the draft text is
  restored; the attachment list is restored to the same attachments, a voice note saved
  during the send keeping the persisted id written to it; the run id, the stream buffer
  and the start time are null and the host is not sending; the last error is \<open>err\<close>;
  the queue is as it was. The history is not rolled back: it keeps its length up to the
  send, then holds the user message of the send (its first block the text, when there is
  one) and after it an assistant message \<open>Error: err\<close>.
\<close>

theorem C2_failed_send_restores_composer:
  assumes conn: "connected host" and c: "client host = Some c" and idle: "\<not> isChatBusy host"
    and nonempty: "trim (chatMessage host) \<noteq> [] \<or> chatAttachments host \<noteq> []"
    and nostop: "\<not> isChatStopCommand (trim (chatMessage host))"
    and rejects: "\<forall>n p. respond c n (ChatSend p) = Inl err"
  shows "(let host' = fst (handleSendChat host None restoreDraft w)
          in chatMessage host' = chatMessage host
             \<and> map withoutPersistedId (chatAttachments host')
                 = map withoutPersistedId (chatAttachments host)
             \<and> chatRunId host' = None \<and> chatStream host' = None
             \<and> chatStreamStartedAt host' = None \<and> \<not> chatSending host'
             \<and> lastError host' = Some err
             \<and> chatQueue host' = chatQueue host
             \<and> (\<exists>patched blocks t t'.
                    chatMessages host' =
                      patched @ (if blocks = [] then [] else [userMessage blocks t])
                        @ [errorMessage err t']
                    \<and> length patched = length (chatMessages host)
                    \<and> (trim (chatMessage host) \<noteq> [] \<longrightarrow>
                         blocks \<noteq> [] \<and> hd blocks = textBlock (trim (chatMessage host)))))"
proof -
  define msg where "msg = trim (chatMessage host)"
  define atts where "atts = chatAttachments host"
  define host1 where "host1 = host\<lparr>chatMessage := [], chatAttachments := []\<rparr>"
  define w1 where "w1 = syncChatComposerLocalState host1 w"
  define opts where "opts =
     \<lparr>optPreviousDraft = Some (chatMessage host), optRestoreDraft = False,
      optAttachments = (if atts \<noteq> [] then Some atts else None),
      optPreviousAttachments = Some atts, optRestoreAttachments = False,
      optRefreshSessions = isChatResetCommand msg\<rparr>"
  have guard: "(msg = [] \<and> atts = []) = False"
    using nonempty by (auto simp: msg_def atts_def)
  have busy1: "isChatBusy host1 = False"
    using idle by (simp add: host1_def isChatBusy_composer_cleared)
  have H: "handleSendChat host None restoreDraft w =
      (case sendChatMessageNow host1 msg opts w1 of (ok, host2, w2) \<Rightarrow> (host2, w2))"
    using conn nostop
    by (simp add: handleSendChat_def Let_def truthyStr_def guard busy1 case_prod_beta
        msg_def [symmetric] atts_def [symmetric] host1_def [symmetric] w1_def [symmetric]
        opts_def [symmetric])
  have sent: "trim msg \<noteq> [] \<or> (case optAttachments opts of None \<Rightarrow> [] | Some as \<Rightarrow> as) \<noteq> []"
    using nonempty by (auto simp: msg_def atts_def opts_def trim_trim)
  have all: "(case optAttachments opts of None \<Rightarrow> [] | Some as \<Rightarrow> as) = atts"
    by (simp add: opts_def)
  have c1: "client host1 = Some c" "connected host1"
    using c conn by (simp_all add: host1_def)
  from sendChatMessage_send_rejected [OF c1 sent rejects, of w1]
  obtain written atts' patched blocks t t' w' where
    S: "sendChatMessage host1 msg (optAttachments opts) w1 =
       ((None, written,
         host1\<lparr>chatAttachments := atts',
            chatMessages := patched @ (if blocks = [] then [] else [userMessage blocks t])
                              @ [errorMessage err t'],
            chatSending := False, lastError := Some err, chatRunId := None,
            chatStream := None, chatStreamStartedAt := None\<rparr>), w')"
    and len: "length patched = length (chatMessages host1)"
    and wr: "map withoutPersistedId written = map withoutPersistedId atts"
    and bl: "trim msg \<noteq> [] \<longrightarrow> blocks \<noteq> [] \<and> hd blocks = textBlock (trim msg)"
    unfolding all by blast
  have prev: "\<exists>as. previousAttachmentsRead opts written = Some as
                \<and> map withoutPersistedId as = map withoutPersistedId atts"
    using wr by (simp add: previousAttachmentsRead_def opts_def)
  have o1: "optPreviousDraft opts = Some (chatMessage host)"
    by (simp add: opts_def)
  from prev obtain as where as: "previousAttachmentsRead opts written = Some as"
    and asw: "map withoutPersistedId as = map withoutPersistedId atts" by blast
  have "fst (handleSendChat host None restoreDraft w) =
      host1\<lparr>chatAttachments := as,
         chatMessages := patched @ (if blocks = [] then [] else [userMessage blocks t])
                              @ [errorMessage err t'],
         chatSending := False, lastError := Some err, chatRunId := None,
         chatStream := None, chatStreamStartedAt := None, chatMessage := chatMessage host\<rparr>"
    unfolding H sendChatMessageNow.simps S
    by (simp add: sendChatMessageResumed.simps truthyStr_def as Let_def o1)
  then show ?thesis
    unfolding Let_def
    using asw len bl
    by (auto simp: host1_def atts_def msg_def trim_trim)
qed


text \<open>A host with an empty composer, no history, no run and an empty queue.\<close>

definition createHost :: "GatewayBrowserClient \<Rightarrow> ChatHost" where
  "createHost c = \<lparr>client = Some c, connected = True, sessionKey = ''main'', chatLoading = False,
     chatMessages = [], chatThinkingLevel = None, chatSending = False, chatMessage = [],
     chatAttachments = [], chatRunId = None, chatStream = None, chatStreamStartedAt = None,
     lastError = None, chatQueue = [], chatRecording = False, chatRecordError = None,
     refreshSessionsAfterChat = {}\<rparr>"

text \<open>A client whose chat.send rejects; its saves resolve with a note id.\<close>

definition sendRejectingClient :: GatewayBrowserClient where
  "sendRejectingClient =
     \<lparr>respond = (\<lambda>n r. case r of ChatSend p \<Rightarrow> Inl ''Error: offline''
                               | VoiceNotesSave p \<Rightarrow> Inr (Some ''voice-note-123'')
                               | ChatAbort k i \<Rightarrow> Inr None)\<rparr>"

lemma writeLocalChatStateStore_other:
  "requests (writeLocalChatStateStore s w) = requests w"
  "warnings (writeLocalChatStateStore s w) = warnings w"
  "dateNow (writeLocalChatStateStore s w) = dateNow w"
  "dateNowCalls (writeLocalChatStateStore s w) = dateNowCalls w"
  "generateUUID (writeLocalChatStateStore s w) = generateUUID w"
  "uuidCalls (writeLocalChatStateStore s w) = uuidCalls w"
  by (simp_all add: writeLocalChatStateStore_def split: option.splits)

lemma updateLocalSessionState_other:
  "requests (updateLocalSessionState k u w) = requests w"
  "warnings (updateLocalSessionState k u w) = warnings w"
  "dateNow (updateLocalSessionState k u w) = dateNow w"
  "dateNowCalls (updateLocalSessionState k u w) = dateNowCalls w"
  "generateUUID (updateLocalSessionState k u w) = generateUUID w"
  "uuidCalls (updateLocalSessionState k u w) = uuidCalls w"
  by (simp_all add: updateLocalSessionState_def Let_def writeLocalChatStateStore_other
      split: option.splits)

lemma syncChatComposerLocalState_other:
  "requests (syncChatComposerLocalState st w) = requests w"
  "warnings (syncChatComposerLocalState st w) = warnings w"
  "dateNow (syncChatComposerLocalState st w) = dateNow w"
  "dateNowCalls (syncChatComposerLocalState st w) = dateNowCalls w"
  "generateUUID (syncChatComposerLocalState st w) = generateUUID w"
  "uuidCalls (syncChatComposerLocalState st w) = uuidCalls w"
  by (simp_all add: syncChatComposerLocalState_def Let_def updateLocalSessionState_other)

lemma trim_hi: "trim ''hi'' = ''hi''"
  by (simp add: trim_def is_ws_def)

lemma hi_no_command: "isChatStopCommand ''hi'' = False" "isChatResetCommand ''hi'' = False"
  by (simp_all add: isChatStopCommand_def isChatResetCommand_def string_defs)

text \<open>
  C2 as stated fails: the history is empty before the send of \<open>hi\<close> and, the chat.send
  request rejected, holds the user message and an assistant error message after it.
\<close>

theorem C2_counterexample:
  "chatMessages ((createHost sendRejectingClient)\<lparr>chatMessage := ''hi''\<rparr>) = []
   \<and> chatMessages (fst (handleSendChat ((createHost sendRejectingClient)\<lparr>chatMessage := ''hi''\<rparr>)
                          None False freshWorld))
       = [userMessage [textBlock ''hi''] 1700000000000,
          errorMessage ''Error: offline'' 1700000000001]"
  apply (simp add: handleSendChat_def trim_hi hi_no_command isChatBusy_def truthyStr_def
      createHost_def Let_def)
  apply (simp add: sendChatMessageNow.simps)
  apply (simp add: sendChatMessage_def sendRejectingClient_def trim_hi
      buildVoiceNotePromptText_def filterBoolean_def Let_def Date_now_def nextUUID_def
      request_def)
  apply (simp add: sendChatMessageResumed.simps truthyStr_def previousAttachmentsRead_def
      Let_def syncChatComposerLocalState_other)
  apply (simp add: freshWorld_def)
  done

theorem C2_failed_send_witness:
  "chatMessage (fst (handleSendChat ((createHost sendRejectingClient)\<lparr>chatMessage := ''hi''\<rparr>)
                          None False freshWorld)) = ''hi''
   \<and> lastError (fst (handleSendChat ((createHost sendRejectingClient)\<lparr>chatMessage := ''hi''\<rparr>)
                          None False freshWorld)) = Some ''Error: offline''
   \<and> chatRunId (fst (handleSendChat ((createHost sendRejectingClient)\<lparr>chatMessage := ''hi''\<rparr>)
                          None False freshWorld)) = None"
  using C2_failed_send_restores_composer [of
      "(createHost sendRejectingClient)\<lparr>chatMessage := ''hi''\<rparr>" sendRejectingClient
      "''Error: offline''" False freshWorld]
  by (simp add: createHost_def sendRejectingClient_def isChatBusy_def truthyStr_def
      trim_hi hi_no_command Let_def)

text \<open>
  The attachment list restored after a failed send holds the objects that were sent: a
  voice note saved during the send comes back with the persisted id written to it.
\<close>

lemma memoNote_facts:
  "isVoiceNoteAttachment memoNote" "knownNoteId memoNote = []"
  "dataUrlToBase64 (dataUrl memoNote) = Some (''dm9pY2U='', ''audio/ogg'')"
  "attId memoNote = ''voice-1''"
  by (simp_all add: memoNote_def isVoiceNoteAttachment_def knownNoteId_def dataUrlToBase64_def
      startsWith_def)

lemma memoNote_saved:
  assumes "client st = Some sendRejectingClient" and "connected st"
  shows "fst (snd (fst (persistVoiceNoteAttachment st memoNote w)))
           = memoNote\<lparr>persistedNoteId := Some ''voice-note-123''\<rparr>
       \<and> fst (fst (persistVoiceNoteAttachment st memoNote w)) = Inr (Some ''voice-note-123'')"
  using assms memoNote_facts
  by (simp add: persistVoiceNoteAttachment_def sendRejectingClient_def request_def Let_def
      knownNoteId_def trim_def is_ws_def split: prod.splits)

lemma failed_send_keeps_written_id:
  "chatAttachments (fst (handleSendChat
       ((createHost sendRejectingClient)\<lparr>chatMessage := ''hi'', chatAttachments := [memoNote]\<rparr>)
       None False freshWorld))
     = [memoNote\<lparr>persistedNoteId := Some ''voice-note-123''\<rparr>]"
proof -
  define host1 where "host1 = (createHost sendRejectingClient)\<lparr>chatMessage := []\<rparr>"
  define w1 where "w1 = syncChatComposerLocalState host1 freshWorld"
  define opts where "opts =
     \<lparr>optPreviousDraft = Some ''hi'', optRestoreDraft = False,
      optAttachments = Some [memoNote], optPreviousAttachments = Some [memoNote],
      optRestoreAttachments = False, optRefreshSessions = False\<rparr>"
  have H: "handleSendChat
       ((createHost sendRejectingClient)\<lparr>chatMessage := ''hi'', chatAttachments := [memoNote]\<rparr>)
       None False freshWorld =
      (case sendChatMessageNow host1 ''hi'' opts w1 of (ok, host2, w2) \<Rightarrow> (host2, w2))"
    by (simp add: handleSendChat_def trim_hi hi_no_command isChatBusy_def truthyStr_def
        createHost_def Let_def host1_def w1_def opts_def case_prod_beta)
  obtain runId written host2 w2 where S:
    "sendChatMessage host1 ''hi'' (optAttachments opts) w1 = ((runId, written, host2), w2)"
    by (metis prod.exhaust)
  have c1: "client host1 = Some sendRejectingClient" "connected host1"
    by (simp_all add: host1_def createHost_def)
  have rej: "\<forall>n p. respond sendRejectingClient n (ChatSend p) = Inl ''Error: offline''"
    by (simp add: sendRejectingClient_def)
  have "runId = None"
    using sendChatMessage_send_rejected [OF c1 _ rej, of "''hi''" "optAttachments opts" w1] S
    by (auto simp: trim_hi)
  obtain r a1 st1 w' where P:
    "persistVoiceNoteAttachment host1 memoNote (snd (Date_now w1)) = ((r, a1, st1), w')"
    by (metis prod.exhaust)
  from memoNote_saved [OF c1, of "snd (Date_now w1)"] P
  have a1: "a1 = memoNote\<lparr>persistedNoteId := Some ''voice-note-123''\<rparr>"
    and r: "r = Inr (Some ''voice-note-123'')" by simp_all
  have "written = [memoNote\<lparr>persistedNoteId := Some ''voice-note-123''\<rparr>]"
    using S c1 P a1 r memoNote_facts
    by (simp add: sendChatMessage_def opts_def Let_def Date_now_def nextUUID_def request_def
        persistOrWarn_def knownNoteId_def trim_hi sendRejectingClient_def
        split: prod.splits)
  with \<open>runId = None\<close> show ?thesis
    unfolding H sendChatMessageNow.simps S
    by (simp add: sendChatMessageResumed.simps truthyStr_def previousAttachmentsRead_def
        opts_def Let_def)
qed

section \<open>Properties of the send queue\<close>

text \<open>
  Between two worlds only requests were issued, warnings logged and the storage written:
  the clock and the run-id source are where they were.
\<close>

definition laterWorld :: "world \<Rightarrow> world \<Rightarrow> bool" where
  "laterWorld w w' \<longleftrightarrow>
     (\<exists>rs. requests w' = requests w @ rs) \<and>
     dateNow w' = dateNow w \<and> dateNowCalls w' = dateNowCalls w \<and>
     generateUUID w' = generateUUID w \<and> uuidCalls w' = uuidCalls w"

lemma laterWorld_refl: "laterWorld w w"
  by (simp add: laterWorld_def)

lemma laterWorld_trans: "laterWorld a b \<Longrightarrow> laterWorld b c \<Longrightarrow> laterWorld a c"
  by (auto simp: laterWorld_def)

lemma laterWorld_updateLocalSessionState: "laterWorld w (updateLocalSessionState k u w)"
  by (simp add: laterWorld_def updateLocalSessionState_other)

lemma request_later: "request c r w = (x, w') \<Longrightarrow> laterWorld w w'"
  by (auto simp: laterWorld_def request_def)

lemma laterWorld_console_warn: "laterWorld w (console_warn e w)"
  by (simp add: laterWorld_def console_warn_def)

lemma updateLocalVoiceNotePersistence_later:
  "updateLocalVoiceNotePersistence st i p w = (st', w') \<Longrightarrow> laterWorld w w'"
  unfolding updateLocalVoiceNotePersistence_def Let_def
  by (auto simp: laterWorld_updateLocalSessionState)

lemma persistVoiceNoteAttachment_later:
  assumes "persistVoiceNoteAttachment st a w = ((r, a', st'), w')"
  shows "laterWorld w w'"
proof (cases "\<exists>c content mime. client st = Some c \<and> connected st
         \<and> (case persistedNoteId a of None \<Rightarrow> [] | Some p \<Rightarrow> trim p) = []
         \<and> dataUrlToBase64 (dataUrl a) = Some (content, mime)")
  case False
  with assms have "w' = w"
    by (auto simp: persistVoiceNoteAttachment_def Let_def split: option.splits if_splits)
  then show ?thesis by (simp add: laterWorld_refl)
next
  case True
  then obtain c content mime where h: "client st = Some c" "connected st"
     "(case persistedNoteId a of None \<Rightarrow> [] | Some p \<Rightarrow> trim p) = []"
     "dataUrlToBase64 (dataUrl a) = Some (content, mime)" by blast
  from assms h show ?thesis
    by (auto simp: persistVoiceNoteAttachment_def Let_def
        split: sum.splits prod.splits if_splits
        dest!: updateLocalVoiceNotePersistence_later request_later
        intro: laterWorld_trans laterWorld_refl)
qed

lemma sendChatMessage_runId:
  assumes "sendChatMessage st message attsOpt w = ((Some r, written, st'), w')"
  shows "chatRunId st' = Some r"
proof -
  let ?all = "case attsOpt of None \<Rightarrow> [] | Some as \<Rightarrow> as"
  let ?w0 = "w\<lparr>dateNowCalls := Suc (dateNowCalls w)\<rparr>"
  obtain vs ids st1 w1 where loop:
    "persistVoiceNotes st (filter isVoiceNoteAttachment ?all) Map.empty ?w0 = ((vs, ids, st1), w1)"
    by (metis prod.exhaust)
  from assms loop show ?thesis
    by (auto simp: sendChatMessage_def Let_def Date_now_def nextUUID_def request_def
        split: option.splits if_splits sum.splits)
qed

text \<open>
  No push event handled while it waits, \<open>sendChatMessageNow\<close> never starts a flush: a run
  id it got back is still the active run when it goes on.
\<close>

lemma sendChatMessageNow_no_flush:
  assumes "sendChatMessage host message (optAttachments opts) w = ((runId, written, host1), w1)"
  shows "\<exists>host'. sendChatMessageNow host message opts w =
           ((truthyStr runId, written), host', syncChatComposerLocalState
               (host'\<lparr>refreshSessionsAfterChat := refreshSessionsAfterChat host1\<rparr>) w1)
         \<and> chatQueue host' = chatQueue host
         \<and> chatRunId host' = chatRunId host1
         \<and> chatSending host' = chatSending host1
         \<and> connected host' = connected host1
         \<and> chatMessages host' = chatMessages host1
         \<and> lastError host' = lastError host1
         \<and> (\<not> truthyStr runId \<longrightarrow>
               chatMessage host' = (case optPreviousDraft opts of None \<Rightarrow> chatMessage host1
                                     | Some d \<Rightarrow> d)
               \<and> chatAttachments host' =
                   (case previousAttachmentsRead opts written of
                      None \<Rightarrow> chatAttachments host1 | Some as \<Rightarrow> as))"
proof (cases "truthyStr runId")
  case False
  have q: "chatQueue host1 = chatQueue host"
    using assms by (rule sendChatMessage_chatQueue)
  show ?thesis
    unfolding sendChatMessageNow.simps assms
    using False q
    by (auto simp: sendChatMessageResumed.simps Let_def split: option.splits)
next
  case True
  then obtain r where r: "runId = Some r" "r \<noteq> []"
    by (auto simp: truthyStr_def split: option.splits)
  from assms r have run: "chatRunId host1 = Some r"
    by (auto dest: sendChatMessage_runId)
  have q: "chatQueue host1 = chatQueue host"
    using assms by (rule sendChatMessage_chatQueue)
  show ?thesis
    unfolding sendChatMessageNow.simps assms
    using True q run r
    by (auto simp: sendChatMessageResumed.simps Let_def truthyStr_def split: option.splits)
qed


lemma persistOrWarn_later:
  assumes "persistOrWarn st a ids w = ((a', ids', st'), w')"
  shows "laterWorld w w'"
proof (cases "(case persistedNoteId a of None \<Rightarrow> [] | Some p \<Rightarrow> trim p) = []")
  case False
  with assms have "w' = w" by (auto simp: persistOrWarn_def Let_def)
  then show ?thesis by (simp add: laterWorld_refl)
next
  case True
  obtain r a1 st1 w1 where p: "persistVoiceNoteAttachment st a w = ((r, a1, st1), w1)"
    by (metis prod.exhaust)
  with assms True have "w' = w1 \<or> (\<exists>e. w' = console_warn e w1)"
    by (auto simp: persistOrWarn_def Let_def split: sum.splits option.splits)
  with persistVoiceNoteAttachment_later [OF p] show ?thesis
    by (auto intro: laterWorld_trans laterWorld_console_warn)
qed

lemma persistVoiceNotes_later:
  "persistVoiceNotes st as ids w = ((as', ids', st'), w') \<Longrightarrow> laterWorld w w'"
proof (induction as arbitrary: st ids w as' ids' st' w')
  case Nil
  then show ?case by (simp add: laterWorld_refl)
next
  case (Cons a as)
  obtain a1 ids1 st1 w1 where one: "persistOrWarn st a ids w = ((a1, ids1, st1), w1)"
    by (metis prod.exhaust)
  obtain as2 ids2 st2 w2 where rest: "persistVoiceNotes st1 as ids1 w1 = ((as2, ids2, st2), w2)"
    by (metis prod.exhaust)
  from Cons.prems one rest have "w' = w2" by simp
  with persistOrWarn_later [OF one] Cons.IH [OF rest] show ?case
    by (auto intro: laterWorld_trans)
qed

text \<open>
  A send that gets past its guards issues the chat.send request last, with the outbound
  message; it returns the run id drawn when the request resolves and null when it
  rejects.
\<close>

lemma sendChatMessage_issues:
  assumes c: "client st = Some c" and conn: "connected st"
    and nonempty: "trim message \<noteq> [] \<or> (case attsOpt of None \<Rightarrow> [] | Some as \<Rightarrow> as) \<noteq> []"
  shows "\<exists>rs p. requests (snd (sendChatMessage st message attsOpt w)) = requests w @ rs @ [ChatSend p]
           \<and> send_message p =
               outboundMessage message (case attsOpt of None \<Rightarrow> [] | Some as \<Rightarrow> as)
           \<and> fst (fst (sendChatMessage st message attsOpt w)) =
               (case respond c (length (requests w @ rs)) (ChatSend p) of
                  Inl e \<Rightarrow> None
                | Inr r \<Rightarrow> Some (generateUUID w (uuidCalls w)))"
proof -
  let ?all = "case attsOpt of None \<Rightarrow> [] | Some as \<Rightarrow> as"
  let ?w0 = "w\<lparr>dateNowCalls := Suc (dateNowCalls w)\<rparr>"
  obtain vs ids st1 w1 where loop:
    "persistVoiceNotes st (filter isVoiceNoteAttachment ?all) Map.empty ?w0 = ((vs, ids, st1), w1)"
    by (metis prod.exhaust)
  from persistVoiceNotes_later [OF loop] obtain rs where
    rs: "requests w1 = requests w @ rs" and u: "generateUUID w1 = generateUUID w"
      "uuidCalls w1 = uuidCalls w"
    by (auto simp: laterWorld_def)
  have go: "(trim message = [] \<and> filter (\<lambda>a. \<not> isVoiceNoteAttachment a) ?all = []
              \<and> filter isVoiceNoteAttachment ?all = []) = False"
    using nonempty filter_both_empty [of isVoiceNoteAttachment ?all] by blast
  let ?p = "\<lparr>send_sessionKey = sessionKey st,
             send_message = outboundMessage message ?all,
             send_deliver = False,
             send_idempotencyKey = generateUUID w (uuidCalls w),
             send_attachments =
               (if filter (\<lambda>a. \<not> isVoiceNoteAttachment a) ?all \<noteq> []
                then Some (List.map_filter toApiAttachment
                             (filter (\<lambda>a. \<not> isVoiceNoteAttachment a) ?all))
                else None)\<rparr>"
  from persistVoiceNotes_frame [OF loop] have k: "sessionKey st1 = sessionKey st"
    unfolding sameButLists_def by auto
  have "requests (snd (sendChatMessage st message attsOpt w)) = requests w @ rs @ [ChatSend ?p]
       \<and> fst (fst (sendChatMessage st message attsOpt w)) =
               (case respond c (length (requests w @ rs)) (ChatSend ?p) of
                  Inl e \<Rightarrow> None
                | Inr r \<Rightarrow> Some (generateUUID w (uuidCalls w)))"
    using c conn loop rs u k
    by (simp add: sendChatMessage_def Let_def Date_now_def nextUUID_def request_def go
        outboundMessage_def split: sum.splits)
  then show ?thesis by (intro exI [of _ rs] exI [of _ ?p]) simp
qed


lemma sendChatMessage_written:
  "map withoutPersistedId (fst (snd (fst (sendChatMessage st message attsOpt w))))
     = map withoutPersistedId (case attsOpt of None \<Rightarrow> [] | Some as \<Rightarrow> as)"
proof -
  let ?all = "case attsOpt of None \<Rightarrow> [] | Some as \<Rightarrow> as"
  let ?w0 = "w\<lparr>dateNowCalls := Suc (dateNowCalls w)\<rparr>"
  show ?thesis
  proof (cases "\<exists>c. client st = Some c \<and> connected st \<and>
      \<not> (trim message = [] \<and> filter (\<lambda>a. \<not> isVoiceNoteAttachment a) ?all = []
         \<and> filter isVoiceNoteAttachment ?all = [])")
    case False
    then have "fst (snd (fst (sendChatMessage st message attsOpt w))) = ?all"
      by (auto simp: sendChatMessage_def Let_def split: option.splits)
    then show ?thesis by simp
  next
    case True
    then obtain c where c: "client st = Some c" "connected st" and
      go: "(trim message = [] \<and> filter (\<lambda>a. \<not> isVoiceNoteAttachment a) ?all = []
         \<and> filter isVoiceNoteAttachment ?all = []) = False" by blast
    obtain vs ids st1 w1 where loop:
      "persistVoiceNotes st (filter isVoiceNoteAttachment ?all) Map.empty ?w0 = ((vs, ids, st1), w1)"
      by (metis prod.exhaust)
    from persistVoiceNotes_written [OF loop]
    have "map withoutPersistedId vs = map withoutPersistedId (filter isVoiceNoteAttachment ?all)"
      by simp
    then have wr: "map withoutPersistedId (writtenAttachments ?all vs) = map withoutPersistedId ?all"
      by (rule writtenAttachments_withoutPersistedId)
    have "fst (snd (fst (sendChatMessage st message attsOpt w))) = writtenAttachments ?all vs"
      using c loop
      by (simp add: sendChatMessage_def Let_def Date_now_def nextUUID_def request_def go
          split: sum.splits)
    with wr show ?thesis by simp
  qed
qed

text \<open>The attachments of a queued message, none when it has no list.\<close>

definition attachmentsOf :: "ChatQueueItem \<Rightarrow> ChatAttachment list" where
  "attachmentsOf queued = (case itemAttachments queued of None \<Rightarrow> [] | Some as \<Rightarrow> as)"

lemma flushChatQueue_sends_head:
  assumes conn: "connected host" and idle: "\<not> isChatBusy host" and c: "client host = Some c"
    and queue: "chatQueue host = q # rest"
    and nonempty: "trim (itemText q) \<noteq> [] \<or> attachmentsOf q \<noteq> []"
  shows "(\<exists>rs p. requests (snd (flushChatQueue host w)) = requests w @ rs @ [ChatSend p]
             \<and> send_message p = outboundMessage (itemText q) (attachmentsOf q))
       \<and> ((\<forall>n p. respond c n (ChatSend p) = Inl err) \<longrightarrow>
            (\<exists>written. chatQueue (fst (flushChatQueue host w)) =
                          q\<lparr>itemAttachments := map_option (\<lambda>as. written) (itemAttachments q)\<rparr> # rest
                \<and> map withoutPersistedId written = map withoutPersistedId (attachmentsOf q)))
       \<and> ((\<forall>n p. respond c n (ChatSend p) = Inr r) \<and> generateUUID w (uuidCalls w) \<noteq> [] \<longrightarrow>
            chatQueue (fst (flushChatQueue host w)) = rest
            \<and> chatRunId (fst (flushChatQueue host w)) = Some (generateUUID w (uuidCalls w)))"
proof -
  define host0 where "host0 = host\<lparr>chatQueue := rest\<rparr>"
  define opts where "opts =
     \<lparr>optPreviousDraft = None, optRestoreDraft = False, optAttachments = itemAttachments q,
      optPreviousAttachments = None, optRestoreAttachments = False,
      optRefreshSessions = (itemRefreshSessions q = Some True)\<rparr>"
  have oa: "optAttachments opts = itemAttachments q" by (simp add: opts_def)
  obtain runId written host1 w1 where S:
    "sendChatMessage host0 (itemText q) (optAttachments opts) w = ((runId, written, host1), w1)"
    by (metis prod.exhaust)
  from sendChatMessageNow_no_flush [OF S] obtain host' where
    N: "sendChatMessageNow host0 (itemText q) opts w =
          ((truthyStr runId, written), host',
           syncChatComposerLocalState
             (host'\<lparr>refreshSessionsAfterChat := refreshSessionsAfterChat host1\<rparr>) w1)"
    and q': "chatQueue host' = chatQueue host0" and run': "chatRunId host' = chatRunId host1"
    by blast
  have F: "flushChatQueue host w =
      (if truthyStr runId then host'
       else host'\<lparr>chatQueue :=
                   q\<lparr>itemAttachments := map_option (\<lambda>as. written) (itemAttachments q)\<rparr> # rest\<rparr>,
       syncChatComposerLocalState
         (host'\<lparr>refreshSessionsAfterChat := refreshSessionsAfterChat host1\<rparr>) w1)"
  proof -
    have q0: "chatQueue host' = rest" using q' by (simp add: host0_def)
    have "flushChatQueue host w =
        (case sendChatMessageNow host0 (itemText q) opts w of
           ((ok, written), host1, w1) \<Rightarrow>
             if ok then (host1, w1)
             else (host1\<lparr>chatQueue :=
                      q\<lparr>itemAttachments := map_option (\<lambda>as. written) (itemAttachments q)\<rparr>
                      # chatQueue host1\<rparr>, w1))"
      using conn idle queue
      by (simp add: flushChatQueue.simps host0_def opts_def)
    then show ?thesis by (simp add: N q0)
  qed
  have c0: "client host0 = Some c" "connected host0"
    using c conn by (simp_all add: host0_def)
  have ne: "trim (itemText q) \<noteq> []
            \<or> (case optAttachments opts of None \<Rightarrow> [] | Some as \<Rightarrow> as) \<noteq> []"
    using nonempty by (simp add: oa attachmentsOf_def)
  from sendChatMessage_issues [OF c0 ne, of w] S obtain rs p where
    req: "requests w1 = requests w @ rs @ [ChatSend p]"
    and msg: "send_message p = outboundMessage (itemText q) (attachmentsOf q)"
    and res: "runId = (case respond c (length (requests w @ rs)) (ChatSend p) of
                  Inl e \<Rightarrow> None
                | Inr r \<Rightarrow> Some (generateUUID w (uuidCalls w)))"
    by (auto simp: oa attachmentsOf_def)
  have wr: "map withoutPersistedId written = map withoutPersistedId (attachmentsOf q)"
    using sendChatMessage_written [of host0 "itemText q" "optAttachments opts" w] S
    by (simp add: oa attachmentsOf_def)
  have run1: "truthyStr runId \<Longrightarrow> chatRunId host1 = runId"
    using S sendChatMessage_runId [of host0 "itemText q" "optAttachments opts" w]
    by (cases runId) (auto simp: truthyStr_def)
  show ?thesis
  proof (intro conjI impI)
    show "\<exists>rs p. requests (snd (flushChatQueue host w)) = requests w @ rs @ [ChatSend p]
             \<and> send_message p = outboundMessage (itemText q) (attachmentsOf q)"
      using req msg by (simp add: F syncChatComposerLocalState_other)
  next
    assume "\<forall>n p. respond c n (ChatSend p) = Inl err"
    with res have "runId = None" by simp
    then have "chatQueue (fst (flushChatQueue host w)) =
        q\<lparr>itemAttachments := map_option (\<lambda>as. written) (itemAttachments q)\<rparr> # rest"
      by (simp add: F truthyStr_def)
    with wr show "\<exists>written. chatQueue (fst (flushChatQueue host w)) =
                          q\<lparr>itemAttachments := map_option (\<lambda>as. written) (itemAttachments q)\<rparr> # rest
                \<and> map withoutPersistedId written = map withoutPersistedId (attachmentsOf q)"
      by blast
  next
    assume a: "(\<forall>n p. respond c n (ChatSend p) = Inr r) \<and> generateUUID w (uuidCalls w) \<noteq> []"
    with res have r: "runId = Some (generateUUID w (uuidCalls w))" by simp
    with a have t: "truthyStr runId" by (simp add: truthyStr_def)
    from t show "chatQueue (fst (flushChatQueue host w)) = rest"
      by (simp add: F q' host0_def)
    from t run1 r run' show "chatRunId (fst (flushChatQueue host w)) = Some (generateUUID w (uuidCalls w))"
      by (simp add: F)
  qed
qed


lemma enqueueChatMessage_appends:
  assumes "msg \<noteq> [] \<or> toSend \<noteq> []" and "trim msg = msg"
  shows "\<exists>queued. chatQueue (fst (enqueueChatMessage host msg (Some toSend) refresh w))
                    = chatQueue host @ [queued]
           \<and> itemText queued = msg \<and> attachmentsOf queued = toSend
           \<and> requests (snd (enqueueChatMessage host msg (Some toSend) refresh w)) = requests w"
  using assms
  by (auto simp: enqueueChatMessage_def Let_def nextUUID_def Date_now_def attachmentsOf_def)

lemma handleSendChat_busy_enqueues:
  assumes conn: "connected host" and busy: "isChatBusy host"
    and msg: "msg = trim (case ov of None \<Rightarrow> chatMessage host | Some m \<Rightarrow> m)"
    and toSend: "toSend = (if ov = None then chatAttachments host else [])"
    and nonempty: "msg \<noteq> [] \<or> toSend \<noteq> []"
    and nostop: "\<not> isChatStopCommand msg"
  shows "\<exists>queued. chatQueue (fst (handleSendChat host ov restoreDraft w)) = chatQueue host @ [queued]
           \<and> itemText queued = msg \<and> attachmentsOf queued = toSend
           \<and> requests (snd (handleSendChat host ov restoreDraft w)) = requests w"
proof -
  define host1 where
    "host1 = (if ov = None then host\<lparr>chatMessage := [], chatAttachments := []\<rparr> else host)"
  define w1 where "w1 = (if ov = None then syncChatComposerLocalState host1 w else w)"
  have busy1: "isChatBusy host1" using busy by (simp add: host1_def isChatBusy_def)
  have guard: "(msg = [] \<and> toSend = []) = False" using nonempty by blast
  have H: "handleSendChat host ov restoreDraft w =
      enqueueChatMessage host1 msg (Some toSend) (Some (isChatResetCommand msg)) w1"
    using conn nostop busy1 nonempty unfolding msg toSend host1_def w1_def
    by (cases ov) (auto simp: handleSendChat_def Let_def)
  have tm: "trim msg = msg" by (simp add: msg trim_trim)
  have q1: "chatQueue host1 = chatQueue host" by (simp add: host1_def)
  have r1: "requests w1 = requests w" by (simp add: w1_def syncChatComposerLocalState_other)
  from enqueueChatMessage_appends [OF nonempty tm, of host1 "Some (isChatResetCommand msg)" w1]
  show ?thesis unfolding H q1 r1 .
qed

lemma handleSendChat_idle_sends:
  assumes conn: "connected host" and idle: "\<not> isChatBusy host"
    and msg: "msg = trim (case ov of None \<Rightarrow> chatMessage host | Some m \<Rightarrow> m)"
    and toSend: "toSend = (if ov = None then chatAttachments host else [])"
    and nonempty: "msg \<noteq> [] \<or> toSend \<noteq> []"
    and nostop: "\<not> isChatStopCommand msg"
  shows "chatQueue (fst (handleSendChat host ov restoreDraft w)) = chatQueue host
       \<and> (client host = Some c \<longrightarrow>
            (\<exists>rs p. requests (snd (handleSendChat host ov restoreDraft w))
                        = requests w @ rs @ [ChatSend p]
                  \<and> send_message p = outboundMessage msg toSend))"
proof -
  define host1 where
    "host1 = (if ov = None then host\<lparr>chatMessage := [], chatAttachments := []\<rparr> else host)"
  define w1 where "w1 = (if ov = None then syncChatComposerLocalState host1 w else w)"
  define opts where "opts =
     \<lparr>optPreviousDraft = (if ov = None then Some (chatMessage host) else None),
      optRestoreDraft = (truthyStr ov \<and> restoreDraft),
      optAttachments = (if toSend \<noteq> [] then Some toSend else None),
      optPreviousAttachments = (if ov = None then Some (chatAttachments host) else None),
      optRestoreAttachments = (truthyStr ov \<and> restoreDraft),
      optRefreshSessions = isChatResetCommand msg\<rparr>"
  have busy1: "isChatBusy host1 = False" using idle by (simp add: host1_def isChatBusy_def)
  have guard: "(msg = [] \<and> toSend = []) = False" using nonempty by blast
  have H: "handleSendChat host ov restoreDraft w =
      (case sendChatMessageNow host1 msg opts w1 of (ok, host2, w2) \<Rightarrow> (host2, w2))"
    using conn nostop busy1 nonempty unfolding msg toSend host1_def w1_def opts_def
    by (cases ov) (auto simp: handleSendChat_def Let_def case_prod_beta truthyStr_def)
  have all: "(case optAttachments opts of None \<Rightarrow> [] | Some as \<Rightarrow> as) = toSend"
    by (simp add: opts_def)
  have ne: "trim msg \<noteq> [] \<or> (case optAttachments opts of None \<Rightarrow> [] | Some as \<Rightarrow> as) \<noteq> []"
    using nonempty by (simp add: all msg trim_trim)
  obtain runId written host2 w2 where S:
    "sendChatMessage host1 msg (optAttachments opts) w1 = ((runId, written, host2), w2)"
    by (metis prod.exhaust)
  from sendChatMessageNow_no_flush [OF S] obtain host' where
    N: "sendChatMessageNow host1 msg opts w1 =
          ((truthyStr runId, written), host',
           syncChatComposerLocalState
             (host'\<lparr>refreshSessionsAfterChat := refreshSessionsAfterChat host2\<rparr>) w2)"
    and q': "chatQueue host' = chatQueue host1"
    by blast
  have r1: "requests w1 = requests w" by (simp add: w1_def syncChatComposerLocalState_other)
  have q1: "chatQueue host1 = chatQueue host" by (simp add: host1_def)
  have queue: "chatQueue (fst (handleSendChat host ov restoreDraft w)) = chatQueue host"
    by (simp add: H N q' q1)
  have sends: "\<exists>rs p. requests (snd (handleSendChat host ov restoreDraft w))
                        = requests w @ rs @ [ChatSend p]
                  \<and> send_message p = outboundMessage msg toSend"
    if c: "client host = Some c"
  proof -
    have c1: "client host1 = Some c" "connected host1"
      using c conn by (simp_all add: host1_def)
    from sendChatMessage_issues [OF c1 ne, of w1] S obtain rs p where
      req: "requests w2 = requests w1 @ rs @ [ChatSend p]"
      and m: "send_message p = outboundMessage msg toSend"
      by (auto simp: all)
    then show ?thesis
      by (simp add: H N r1 syncChatComposerLocalState_other)
  qed
  from queue sends show ?thesis by blast
qed

text \<open>The host on which \<open>sendChatMessageNow\<close> goes on after a send that returned a run id.\<close>

definition restoredComposer :: "ChatHost \<Rightarrow> SendOpts \<Rightarrow> ChatAttachment list \<Rightarrow> ChatHost" where
  "restoredComposer host opts written =
     (let host3 = (if optRestoreDraft opts then
                     (case optPreviousDraft opts of
                        None \<Rightarrow> host
                      | Some d \<Rightarrow> if trim d \<noteq> [] then host\<lparr>chatMessage := d\<rparr> else host)
                   else host)
      in if optRestoreAttachments opts then
           (case previousAttachmentsRead opts written of
              None \<Rightarrow> host3
            | Some as \<Rightarrow> if as \<noteq> [] then host3\<lparr>chatAttachments := as\<rparr> else host3)
         else host3)"

lemma restoredComposer_fields:
  "connected (restoredComposer host opts written) = connected host"
  "client (restoredComposer host opts written) = client host"
  "chatQueue (restoredComposer host opts written) = chatQueue host"
  "chatRunId (restoredComposer host opts written) = chatRunId host"
  "chatSending (restoredComposer host opts written) = chatSending host"
  by (simp_all add: restoredComposer_def Let_def split: option.splits)

lemma sendChatMessageResumed_inactive:
  assumes "truthyStr runId" and "\<not> truthyStr (chatRunId host)"
  shows "sendChatMessageResumed host runId written opts w =
     (case flushChatQueue (restoredComposer host opts written)
             (syncChatComposerLocalState (restoredComposer host opts written) w) of
        (host5, w2) \<Rightarrow>
          ((True, written),
           (if optRefreshSessions opts then
              (case runId of
                 None \<Rightarrow> host5
               | Some r \<Rightarrow> host5\<lparr>refreshSessionsAfterChat :=
                                     insert r (refreshSessionsAfterChat host5)\<rparr>)
            else host5),
           w2))"
proof -
  have R: "sendChatMessageResumed host runId written opts w =
     (case (if truthyStr (chatRunId (restoredComposer host opts written))
            then (restoredComposer host opts written,
                  syncChatComposerLocalState (restoredComposer host opts written) w)
            else flushChatQueue (restoredComposer host opts written)
                   (syncChatComposerLocalState (restoredComposer host opts written) w)) of
        (host5, w2) \<Rightarrow>
          ((True, written),
           (if optRefreshSessions opts then
              (case runId of
                 None \<Rightarrow> host5
               | Some r \<Rightarrow> host5\<lparr>refreshSessionsAfterChat :=
                                     insert r (refreshSessionsAfterChat host5)\<rparr>)
            else host5),
           w2))"
    using assms(1)
    by (simp add: sendChatMessageResumed.simps restoredComposer_def Let_def)
  have "truthyStr (chatRunId (restoredComposer host opts written)) = False"
    using assms(2) by (simp add: restoredComposer_fields)
  then show ?thesis unfolding R by simp
qed


lemma sendChatMessageResumed_sends_head:
  assumes ok: "truthyStr runId" and inactive: "\<not> truthyStr (chatRunId host)"
    and notSending: "\<not> chatSending host" and conn: "connected host"
    and c: "client host = Some c" and queue: "chatQueue host = q # rest"
    and nonempty: "trim (itemText q) \<noteq> [] \<or> attachmentsOf q \<noteq> []"
  shows "(\<exists>rs p. requests (snd (snd (sendChatMessageResumed host runId written opts w)))
                    = requests w @ rs @ [ChatSend p]
             \<and> send_message p = outboundMessage (itemText q) (attachmentsOf q))
       \<and> ((\<forall>n p. respond c n (ChatSend p) = Inr r) \<and> generateUUID w (uuidCalls w) \<noteq> [] \<longrightarrow>
            chatQueue (fst (snd (sendChatMessageResumed host runId written opts w))) = rest)"
proof -
  define h4 where "h4 = restoredComposer host opts written"
  define w1 where "w1 = syncChatComposerLocalState h4 w"
  have R: "sendChatMessageResumed host runId written opts w =
     (case flushChatQueue h4 w1 of
        (host5, w2) \<Rightarrow>
          ((True, written),
           (if optRefreshSessions opts then
              (case runId of
                 None \<Rightarrow> host5
               | Some r \<Rightarrow> host5\<lparr>refreshSessionsAfterChat :=
                                     insert r (refreshSessionsAfterChat host5)\<rparr>)
            else host5),
           w2))"
    unfolding h4_def w1_def using ok inactive by (rule sendChatMessageResumed_inactive)
  have h: "connected h4" "\<not> isChatBusy h4" "client h4 = Some c" "chatQueue h4 = q # rest"
    using conn inactive notSending c queue
    by (simp_all add: h4_def restoredComposer_fields isChatBusy_def)
  have w: "requests w1 = requests w" "generateUUID w1 = generateUUID w" "uuidCalls w1 = uuidCalls w"
    by (simp_all add: w1_def syncChatComposerLocalState_other)
  obtain host5 w2 where F: "flushChatQueue h4 w1 = (host5, w2)" by (cases "flushChatQueue h4 w1")
  from flushChatQueue_sends_head [OF h nonempty, of w1 undefined r] F w
  have 1: "\<exists>rs p. requests w2 = requests w @ rs @ [ChatSend p]
             \<and> send_message p = outboundMessage (itemText q) (attachmentsOf q)"
    and 2: "(\<forall>n p. respond c n (ChatSend p) = Inr r) \<and> generateUUID w (uuidCalls w) \<noteq> [] \<longrightarrow>
            chatQueue host5 = rest"
    by simp_all
  show ?thesis
    using 1 2 by (simp add: R F split: option.splits)
qed

text \<open>
  C9. The send queue. (1) \<open>handleSendChat\<close> on a connected host, with a message that is
  not empty or with attachments, and not a stop command: when the host is busy the message
  is appended to the tail of the queue and no request is issued; when it is not busy the
  queue is left alone and, the host having a client, a chat.send request with the outbound
  message is issued. (2) \<open>flushChatQueue\<close> on a connected host that is not busy takes the head of
  the queue and issues the chat.send request for it; when the request rejects, the item is
  back at the head, before the rest of the queue, its attachments the same up to a
  persisted id written by a save; when it resolves, the queue is the rest. (3) When
  \<open>sendChatMessageNow\<close> goes on after a send that returned a run id and finds no run
  active on the host, the head of the queue is taken and sent in the same way.
\<close>

theorem C9_send_queue_discipline:
  "(let msg = trim (case ov of None \<Rightarrow> chatMessage host | Some m \<Rightarrow> m);
        toSend = (if ov = None then chatAttachments host else []);
        H = handleSendChat host ov restoreDraft w
    in connected host \<and> (msg \<noteq> [] \<or> toSend \<noteq> []) \<and> \<not> isChatStopCommand msg \<longrightarrow>
         (isChatBusy host \<longrightarrow>
            (\<exists>queued. chatQueue (fst H) = chatQueue host @ [queued]
                \<and> itemText queued = msg \<and> attachmentsOf queued = toSend
                \<and> requests (snd H) = requests w))
         \<and> (\<not> isChatBusy host \<longrightarrow>
              chatQueue (fst H) = chatQueue host
              \<and> (client host = Some c \<longrightarrow>
                   (\<exists>rs p. requests (snd H) = requests w @ rs @ [ChatSend p]
                         \<and> send_message p = outboundMessage msg toSend))))
   \<and> (connected host \<and> \<not> isChatBusy host \<and> client host = Some c
        \<and> chatQueue host = q # rest \<and> (trim (itemText q) \<noteq> [] \<or> attachmentsOf q \<noteq> []) \<longrightarrow>
        (\<exists>rs p. requests (snd (flushChatQueue host w)) = requests w @ rs @ [ChatSend p]
             \<and> send_message p = outboundMessage (itemText q) (attachmentsOf q))
        \<and> ((\<forall>n p. respond c n (ChatSend p) = Inl err) \<longrightarrow>
             (\<exists>written. chatQueue (fst (flushChatQueue host w)) =
                          q\<lparr>itemAttachments := map_option (\<lambda>as. written) (itemAttachments q)\<rparr> # rest
                 \<and> map withoutPersistedId written = map withoutPersistedId (attachmentsOf q)))
        \<and> ((\<forall>n p. respond c n (ChatSend p) = Inr r) \<and> generateUUID w (uuidCalls w) \<noteq> [] \<longrightarrow>
             chatQueue (fst (flushChatQueue host w)) = rest
             \<and> chatRunId (fst (flushChatQueue host w)) = Some (generateUUID w (uuidCalls w))))
   \<and> (truthyStr runId \<and> \<not> truthyStr (chatRunId host) \<and> \<not> chatSending host
        \<and> connected host \<and> client host = Some c
        \<and> chatQueue host = q # rest \<and> (trim (itemText q) \<noteq> [] \<or> attachmentsOf q \<noteq> []) \<longrightarrow>
        (\<exists>rs p. requests (snd (snd (sendChatMessageResumed host runId written opts w)))
                    = requests w @ rs @ [ChatSend p]
             \<and> send_message p = outboundMessage (itemText q) (attachmentsOf q))
        \<and> ((\<forall>n p. respond c n (ChatSend p) = Inr r) \<and> generateUUID w (uuidCalls w) \<noteq> [] \<longrightarrow>
             chatQueue (fst (snd (sendChatMessageResumed host runId written opts w))) = rest))"
proof -
  define msg where "msg = trim (case ov of None \<Rightarrow> chatMessage host | Some m \<Rightarrow> m)"
  define toSend where "toSend = (if ov = None then chatAttachments host else [])"
  have 1: "connected host \<and> (msg \<noteq> [] \<or> toSend \<noteq> []) \<and> \<not> isChatStopCommand msg \<longrightarrow>
         (isChatBusy host \<longrightarrow>
            (\<exists>queued. chatQueue (fst (handleSendChat host ov restoreDraft w)) = chatQueue host @ [queued]
                \<and> itemText queued = msg \<and> attachmentsOf queued = toSend
                \<and> requests (snd (handleSendChat host ov restoreDraft w)) = requests w))
         \<and> (\<not> isChatBusy host \<longrightarrow>
              chatQueue (fst (handleSendChat host ov restoreDraft w)) = chatQueue host
              \<and> (client host = Some c \<longrightarrow>
                   (\<exists>rs p. requests (snd (handleSendChat host ov restoreDraft w))
                                 = requests w @ rs @ [ChatSend p]
                         \<and> send_message p = outboundMessage msg toSend)))"
    using handleSendChat_busy_enqueues [OF _ _ msg_def toSend_def, of restoreDraft w]
      handleSendChat_idle_sends [OF _ _ msg_def toSend_def, of restoreDraft w c]
    by blast
  have 2: "connected host \<and> \<not> isChatBusy host \<and> client host = Some c
        \<and> chatQueue host = q # rest \<and> (trim (itemText q) \<noteq> [] \<or> attachmentsOf q \<noteq> []) \<longrightarrow>
        (\<exists>rs p. requests (snd (flushChatQueue host w)) = requests w @ rs @ [ChatSend p]
             \<and> send_message p = outboundMessage (itemText q) (attachmentsOf q))
        \<and> ((\<forall>n p. respond c n (ChatSend p) = Inl err) \<longrightarrow>
             (\<exists>written. chatQueue (fst (flushChatQueue host w)) =
                          q\<lparr>itemAttachments := map_option (\<lambda>as. written) (itemAttachments q)\<rparr> # rest
                 \<and> map withoutPersistedId written = map withoutPersistedId (attachmentsOf q)))
        \<and> ((\<forall>n p. respond c n (ChatSend p) = Inr r) \<and> generateUUID w (uuidCalls w) \<noteq> [] \<longrightarrow>
             chatQueue (fst (flushChatQueue host w)) = rest
             \<and> chatRunId (fst (flushChatQueue host w)) = Some (generateUUID w (uuidCalls w)))"
    using flushChatQueue_sends_head [where host = host and c = c and q = q and rest = rest
        and w = w and err = err and r = r]
    by blast
  have 3: "truthyStr runId \<and> \<not> truthyStr (chatRunId host) \<and> \<not> chatSending host
        \<and> connected host \<and> client host = Some c
        \<and> chatQueue host = q # rest \<and> (trim (itemText q) \<noteq> [] \<or> attachmentsOf q \<noteq> []) \<longrightarrow>
        (\<exists>rs p. requests (snd (snd (sendChatMessageResumed host runId written opts w)))
                    = requests w @ rs @ [ChatSend p]
             \<and> send_message p = outboundMessage (itemText q) (attachmentsOf q))
        \<and> ((\<forall>n p. respond c n (ChatSend p) = Inr r) \<and> generateUUID w (uuidCalls w) \<noteq> [] \<longrightarrow>
             chatQueue (fst (snd (sendChatMessageResumed host runId written opts w))) = rest)"
    using sendChatMessageResumed_sends_head [where runId = runId and host = host and c = c
        and q = q and rest = rest and r = r and written = written and opts = opts and w = w]
    by blast
  from 1 2 3 show ?thesis
    unfolding Let_def msg_def toSend_def by (intro conjI)
qed


text \<open>Two queued messages, and a host that has them in its queue.\<close>

definition queuedFirst :: ChatQueueItem where
  "queuedFirst = \<lparr>itemId = ''q-1'', itemText = ''first'', createdAt = 1,
     itemAttachments = None, itemRefreshSessions = Some False\<rparr>"

definition queuedSecond :: ChatQueueItem where
  "queuedSecond = \<lparr>itemId = ''q-2'', itemText = ''second'', createdAt = 2,
     itemAttachments = None, itemRefreshSessions = Some False\<rparr>"

definition queueHost :: "GatewayBrowserClient \<Rightarrow> ChatHost" where
  "queueHost c = (createHost c)\<lparr>chatQueue := [queuedFirst, queuedSecond]\<rparr>"

definition plainOpts :: SendOpts where
  "plainOpts = \<lparr>optPreviousDraft = None, optRestoreDraft = False, optAttachments = None,
     optPreviousAttachments = None, optRestoreAttachments = False, optRefreshSessions = False\<rparr>"

lemma trim_first: "trim ''first'' = ''first''"
  by (simp add: trim_def is_ws_def)

lemma uuid_fresh: "generateUUID freshWorld (uuidCalls freshWorld) \<noteq> []"
  by (simp add: freshWorld_def)

theorem C9_send_queue_witness:
  "map itemText (chatQueue (fst (handleSendChat
      ((createHost (resolvingClient ''n''))\<lparr>chatMessage := ''hi'', chatRunId := Some ''run-0''\<rparr>)
      None False freshWorld))) = [''hi'']
   \<and> requests (snd (handleSendChat
      ((createHost (resolvingClient ''n''))\<lparr>chatMessage := ''hi'', chatRunId := Some ''run-0''\<rparr>)
      None False freshWorld)) = []
   \<and> chatQueue (fst (handleSendChat
      ((createHost (resolvingClient ''n''))\<lparr>chatMessage := ''hi''\<rparr>) None False freshWorld)) = []
   \<and> requests (snd (handleSendChat
      ((createHost (resolvingClient ''n''))\<lparr>chatMessage := ''hi''\<rparr>) None False freshWorld)) \<noteq> []
   \<and> chatQueue (fst (flushChatQueue (queueHost sendRejectingClient) freshWorld))
       = [queuedFirst, queuedSecond]
   \<and> chatQueue (fst (flushChatQueue (queueHost (resolvingClient ''n'')) freshWorld))
       = [queuedSecond]
   \<and> chatQueue (fst (snd (sendChatMessageResumed (queueHost (resolvingClient ''n''))
         (Some ''run-0'') [] plainOpts freshWorld))) = [queuedSecond]"
proof -
  have busy: "map itemText (chatQueue (fst (handleSendChat
      ((createHost (resolvingClient ''n''))\<lparr>chatMessage := ''hi'', chatRunId := Some ''run-0''\<rparr>)
      None False freshWorld))) = [''hi'']
   \<and> requests (snd (handleSendChat
      ((createHost (resolvingClient ''n''))\<lparr>chatMessage := ''hi'', chatRunId := Some ''run-0''\<rparr>)
      None False freshWorld)) = []"
    using C9_send_queue_discipline [where ov = None and restoreDraft = False and w = freshWorld
        and host = "(createHost (resolvingClient ''n''))\<lparr>chatMessage := ''hi'', chatRunId := Some ''run-0''\<rparr>"]
    by (auto simp: Let_def createHost_def isChatBusy_def truthyStr_def trim_hi hi_no_command
        freshWorld_def)
  have idle: "chatQueue (fst (handleSendChat
      ((createHost (resolvingClient ''n''))\<lparr>chatMessage := ''hi''\<rparr>) None False freshWorld)) = []
   \<and> requests (snd (handleSendChat
      ((createHost (resolvingClient ''n''))\<lparr>chatMessage := ''hi''\<rparr>) None False freshWorld)) \<noteq> []"
    using C9_send_queue_discipline [where ov = None and restoreDraft = False and w = freshWorld
        and c = "resolvingClient ''n''"
        and host = "(createHost (resolvingClient ''n''))\<lparr>chatMessage := ''hi''\<rparr>"]
    by (auto simp: Let_def createHost_def isChatBusy_def truthyStr_def trim_hi hi_no_command)
  have failed: "chatQueue (fst (flushChatQueue (queueHost sendRejectingClient) freshWorld))
       = [queuedFirst, queuedSecond]"
    using C9_send_queue_discipline [where w = freshWorld and c = sendRejectingClient
        and host = "queueHost sendRejectingClient" and q = queuedFirst and rest = "[queuedSecond]"
        and err = "''Error: offline''"]
    by (auto simp: queueHost_def createHost_def isChatBusy_def truthyStr_def queuedFirst_def
        trim_first sendRejectingClient_def)
  have sent: "chatQueue (fst (flushChatQueue (queueHost (resolvingClient ''n'')) freshWorld))
       = [queuedSecond]"
    using C9_send_queue_discipline [where w = freshWorld and c = "resolvingClient ''n''"
        and host = "queueHost (resolvingClient ''n'')" and q = queuedFirst
        and rest = "[queuedSecond]" and r = None]
    by (auto simp: queueHost_def createHost_def isChatBusy_def truthyStr_def queuedFirst_def
        trim_first resolvingClient_def uuid_fresh)
  have resumed: "chatQueue (fst (snd (sendChatMessageResumed (queueHost (resolvingClient ''n''))
         (Some ''run-0'') [] plainOpts freshWorld))) = [queuedSecond]"
    using C9_send_queue_discipline [where w = freshWorld and c = "resolvingClient ''n''"
        and host = "queueHost (resolvingClient ''n'')" and q = queuedFirst
        and rest = "[queuedSecond]" and r = None and runId = "Some ''run-0''"
        and written = "[]" and opts = plainOpts]
    by (auto simp: queueHost_def createHost_def isChatBusy_def truthyStr_def queuedFirst_def
        trim_first resolvingClient_def uuid_fresh)
  from busy idle failed sent resumed show ?thesis by simp
qed

section \<open>The invariant of the cache: no empty entry\<close>

text \<open>An entry with no draft, no attachments and no voice notes.\<close>

definition emptyEntry :: "StoredSessionChatState \<Rightarrow> bool" where
  "emptyEntry e \<longleftrightarrow>
     (draft e = None \<or> draft e = Some []) \<and>
     (attachments e = None \<or> attachments e = Some []) \<and>
     (voiceNotes e = None \<or> voiceNotes e = Some [])"

text \<open>The persisted sessions map holds no empty entry.\<close>

definition noEmptyEntry :: "world \<Rightarrow> bool" where
  "noEmptyEntry w \<longleftrightarrow>
     (case readLocalChatStateStore w of
        None \<Rightarrow> True
      | Some store \<Rightarrow> \<forall>k e. sessions store k = Some e \<longrightarrow> \<not> emptyEntry e)"

lemma updateLocalSessionState_noEmptyEntry:
  assumes inv: "noEmptyEntry w"
    and upd: "\<And>current next. updater current = Some next \<Longrightarrow> \<not> emptyEntry next"
  shows "noEmptyEntry (updateLocalSessionState key updater w)"
proof (cases "trim key = []")
  case True
  with inv show ?thesis by (simp add: updateLocalSessionState_def)
next
  case False
  show ?thesis
  proof (cases "localStorage w")
    case None
    then show ?thesis
      by (simp add: noEmptyEntry_def updateLocalSessionState_def readLocalChatStateStore_def
          writeLocalChatStateStore_def Let_def split: option.splits)
  next
    case (Some storage)
    show ?thesis
    proof (cases "setItemThrows storage")
      case True
      with Some inv False show ?thesis
        by (auto simp: noEmptyEntry_def updateLocalSessionState_def readLocalChatStateStore_def
            writeLocalChatStateStore_def Let_def split: option.splits)
    next
      case False
      with Some inv \<open>trim key \<noteq> []\<close> upd show ?thesis
        by (auto simp: noEmptyEntry_def updateLocalSessionState_def readLocalChatStateStore_def
            writeLocalChatStateStore_def Let_def LOCAL_CHAT_STATE_VERSION_def
            split: option.splits if_splits)
    qed
  qed
qed

lemma syncChatComposerLocalState_noEmptyEntry:
  "noEmptyEntry w \<Longrightarrow> noEmptyEntry (syncChatComposerLocalState st w)"
  unfolding syncChatComposerLocalState_def Let_def
  by (rule updateLocalSessionState_noEmptyEntry)
     (auto simp: emptyEntry_def split: option.splits if_splits)

lemma sliceLast_nonempty: "xs \<noteq> [] \<Longrightarrow> 0 < n \<Longrightarrow> sliceLast n xs \<noteq> []"
  by (cases xs) (auto simp: sliceLast_def)

lemma appendLocalVoiceNoteMessage_noEmptyEntry:
  "noEmptyEntry w \<Longrightarrow> noEmptyEntry (snd (appendLocalVoiceNoteMessage st a ts w))"
proof -
  assume inv: "noEmptyEntry w"
  have d: "noEmptyEntry (snd (Date_now w))"
    using inv by (simp add: Date_now_def noEmptyEntry_def readLocalChatStateStore_def)
  define w1 where "w1 = (case ts of None \<Rightarrow> snd (Date_now w) | Some t \<Rightarrow> w)"
  have w1: "noEmptyEntry w1" using inv d by (simp add: w1_def split: option.splits)
  have ne: "\<And>xs (x::StoredLocalVoiceNote). sort_key timestamp (xs @ [x]) \<noteq> []"
    by (metis Nil_is_append_conv length_0_conv length_sort not_Cons_self2)
  show ?thesis
  proof (cases "toStoredChatAttachment a")
    case None
    with w1 show ?thesis
      by (auto simp: appendLocalVoiceNoteMessage_def Let_def w1_def Date_now_def
          split: option.splits prod.splits)
  next
    case (Some stored)
    have "noEmptyEntry (updateLocalSessionState k
             (\<lambda>current.
                    let vns = (case voiceNotes current of Some v \<Rightarrow> v | None \<Rightarrow> []);
                        nextVoiceNotes =
                          sliceLast LOCAL_CHAT_VOICE_NOTES_LIMIT
                            (sort_key timestamp
                               (filter (\<lambda>e. noteId e \<noteq> attId a) vns
                                @ [\<lparr>noteId = attId a, timestamp = t,
                                    attachment = stored\<rparr>]))
                    in Some (current\<lparr>voiceNotes := Some nextVoiceNotes\<rparr>)) w1)" for k t
      using w1
      by (rule updateLocalSessionState_noEmptyEntry)
         (auto simp: emptyEntry_def Let_def LOCAL_CHAT_VOICE_NOTES_LIMIT_def
            dest!: sym [of "Some _"] simp: sliceLast_nonempty ne)
    with Some show ?thesis
      by (auto simp: appendLocalVoiceNoteMessage_def Let_def w1_def Date_now_def
          split: option.splits prod.splits)
  qed
qed


text \<open>
  \<open>updateLocalVoiceNotePersistence\<close> does not keep the invariant: its updater never
  returns null. On a session without an entry it reads \<open>{}\<close> as the current entry and
  writes it back with both lists \<open>undefined\<close>.
\<close>

lemma updateLocalVoiceNotePersistence_stores_empty_entry:
  "readLocalSessionState ''main''
     (snd (updateLocalVoiceNotePersistence createState ''voice-1'' ''voice-note-123'' freshWorld))
   = Some emptySession"
  by (simp add: updateLocalVoiceNotePersistence_def store_defs createState_def freshWorld_def
      trim_def is_ws_def Let_def)

lemma memoNote_persist_store:
  "readLocalSessionState ''main''
     (snd (persistVoiceNoteAttachment st memoNote w)) = Some emptySession"
  if "client st = Some (resolvingClient ''voice-note-123'')" "connected st"
     "sessionKey st = ''main''" "localStorage w = Some \<lparr>item = None, setItemThrows = False\<rparr>"
  using that
  by (simp add: persistVoiceNoteAttachment_def resolvingClient_def memoNote_def request_def
      string_defs attachment_defs store_defs updateLocalVoiceNotePersistence_def Let_def
      split: prod.splits)

text \<open>
  C1. The claim: no sequence of cache mutations through \<open>updateLocalSessionState\<close> leaves
  an empty entry in the persisted sessions map. The code breaks it. The storage is empty;
  the voice note of the tests is persisted by a connected client whose save resolves with
  the id \<open>voice-note-123\<close>, which takes \<open>updateLocalVoiceNotePersistence\<close> to the session
  \<open>main\<close>; afterwards the persisted map holds an empty entry under \<open>main\<close>.
\<close>

theorem C1_persistence_update_stores_empty_entry:
  "readLocalSessionState ''main'' freshWorld = None
   \<and> (case readLocalSessionState ''main''
             (snd (persistVoiceNoteAttachment (connectedState (resolvingClient ''voice-note-123''))
                     memoNote freshWorld))
      of Some e \<Rightarrow> emptyEntry e | None \<Rightarrow> False)"
  using memoNote_persist_store [of "connectedState (resolvingClient ''voice-note-123'')" freshWorld]
  by (simp add: connectedState_def createState_def freshWorld_def emptySession_def
      emptyEntry_def store_defs)

lemma persist_breaks_noEmptyEntry:
  "noEmptyEntry freshWorld
   \<and> \<not> noEmptyEntry (snd (persistVoiceNoteAttachment
          (connectedState (resolvingClient ''voice-note-123'')) memoNote freshWorld))"
proof -
  let ?w = "snd (persistVoiceNoteAttachment
          (connectedState (resolvingClient ''voice-note-123'')) memoNote freshWorld)"
  have "readLocalSessionState ''main'' ?w = Some emptySession"
    by (rule memoNote_persist_store)
       (simp_all add: connectedState_def createState_def freshWorld_def)
  then obtain store where store: "readLocalChatStateStore ?w = Some store"
    and entry: "sessions store ''main'' = Some emptySession"
    by (auto simp: readLocalSessionState_def split: option.splits if_splits)
  have "emptyEntry emptySession" by (simp add: emptySession_def emptyEntry_def)
  with entry have "\<exists>k e. sessions store k = Some e \<and> emptyEntry e" by blast
  with store have "\<not> noEmptyEntry ?w" by (simp add: noEmptyEntry_def)
  moreover have "noEmptyEntry freshWorld"
    by (simp add: noEmptyEntry_def freshWorld_def readLocalChatStateStore_def)
  ultimately show ?thesis by simp
qed

end
